theory Spec2Isabelle
  imports Main "HOL-Library.AList"
begin

section \<open>Exceptions and strings\<close>

text \<open>
  The Python exceptions that occur in \<^verbatim>\<open>main.py\<close> and \<^verbatim>\<open>download_models.py\<close>.
  \<open>HTTPException\<close> carries status code and detail; \<open>EngineError\<close> stands for any
  \<^verbatim>\<open>Exception\<close> raised inside the machine-learning runtime or the operating system, with its
  message; \<open>ValidationError\<close> is what \<^verbatim>\<open>ModelResponse(...)\<close> raises for a field value that
  does not have the declared type; \<open>KeyboardInterrupt\<close> is the one exception here that is a \<^verbatim>\<open>BaseException\<close> but not
  an \<^verbatim>\<open>Exception\<close>, so \<^verbatim>\<open>except Exception\<close> does not catch it.
\<close>

datatype exn =
    HTTPException nat string
  | ValueError string
  | KeyError string
  | TypeError string
  | AttributeError string
  | EngineError string
  | ValidationError
  | KeyboardInterrupt

fun is_Exception :: "exn \<Rightarrow> bool" where
  "is_Exception KeyboardInterrupt = False"
| "is_Exception _ = True"

fun is_HTTPException :: "exn \<Rightarrow> bool" where
  "is_HTTPException (HTTPException _ _) = True"
| "is_HTTPException _ = False"

text \<open>Decimal rendering of a status code, as \<^verbatim>\<open>str(int)\<close>.\<close>

fun str_nat :: "nat \<Rightarrow> string" where
  "str_nat n =
     (if n < 10 then [char_of (48 + n)]
      else str_nat (n div 10) @ [char_of (48 + n mod 10)])"

declare str_nat.simps [simp del]

text \<open>
  \<^verbatim>\<open>str(e)\<close>. An \<open>HTTPException\<close> prints as \<^verbatim>\<open>"{status_code}: {detail}"\<close>, a \<open>KeyError\<close> as the
  \<^verbatim>\<open>repr\<close> of its key, the others as their message.
\<close>

fun str_exn :: "exn \<Rightarrow> string" where
  "str_exn (HTTPException c d) = str_nat c @ '': '' @ d"
| "str_exn (ValueError m) = m"
| "str_exn (KeyError k) = [CHR 0x27] @ k @ [CHR 0x27]"
| "str_exn (TypeError m) = m"
| "str_exn (AttributeError m) = m"
| "str_exn (EngineError m) = m"
| "str_exn ValidationError = ''validation error for ModelResponse''"
| "str_exn KeyboardInterrupt = []"

text \<open>\<^verbatim>\<open>repr\<close> of a list of plain strings: \<^verbatim>\<open>['a', 'b']\<close>.\<close>

fun repr_items :: "string list \<Rightarrow> string" where
  "repr_items [] = []"
| "repr_items [k] = [CHR 0x27] @ k @ [CHR 0x27]"
| "repr_items (k # ks) = [CHR 0x27] @ k @ [CHR 0x27] @ '', '' @ repr_items ks"

definition repr_list :: "string list \<Rightarrow> string" where
  "repr_list ks = ''['' @ repr_items ks @ '']''"

text \<open>\<^verbatim>\<open>os.path.join\<close> on POSIX, for two components.\<close>

definition path_join :: "string \<Rightarrow> string \<Rightarrow> string" where
  "path_join a b =
     (case b of
        c # _ \<Rightarrow>
          (if c = CHR ''/'' then b
           else if a = [] \<or> last a = CHR ''/'' then a @ b
           else a @ ''/'' @ b)
      | [] \<Rightarrow> (if a = [] \<or> last a = CHR ''/'' then a else a @ ''/''))"

section \<open>Configuration\<close>

text \<open>The registry is a Python dict literal: an association list in insertion order.\<close>

definition SUPPORTED_MODELS :: "(string \<times> string) list" where
  "SUPPORTED_MODELS =
     [(''bert-base-uncased'', ''bert-base-uncased''),
      (''bert-large-uncased'', ''bert-large-uncased''),
      (''roberta-base'', ''roberta-base''),
      (''roberta-large'', ''roberta-large''),
      (''albert-base-v1'', ''albert-base-v1''),
      (''albert-base-v2'', ''albert-base-v2'')]"

definition MODELS_DIR :: string where
  "MODELS_DIR = ''./models''"

text \<open>\<^verbatim>\<open>list(d.keys())\<close> and \<^verbatim>\<open>k in d\<close> for a dict kept as an association list.\<close>

definition keys :: "('k \<times> 'v) list \<Rightarrow> 'k list" where
  "keys d = map fst d"

section \<open>The inference engine\<close>

text \<open>
  \<^verbatim>\<open>transformers\<close>, \<^verbatim>\<open>torch\<close> and the file system are not part of the repository. Each of their
  entry points that the code calls is a field of the record \<open>engine\<close>: a function of the outside
  world \<open>'w\<close> (disk, network, accelerator) that returns either a fault or a result, and the
  world after the call. A fault is an \<^verbatim>\<open>Exception\<close> with its message, or a user interrupt.
  Handles are opaque: \<open>'t\<close> tokenizers, \<open>'m\<close> models, \<open>'p\<close> pipelines; \<open>'f\<close> is the
  floating-point type, of which nothing is computed here. The request text is a list of code
  points, so that \<open>length\<close> is Python's \<^verbatim>\<open>len\<close>.
\<close>

datatype fault = Failure string | Interrupt

text \<open>
  What a pipeline call returns is not typed in the source. A feature-extraction pipeline hands
  back a tensor as nested lists of numbers; how deep the nesting is and what shape it has is the
  engine's affair, so the value is kept as a tree.
\<close>

datatype 'f py_value = PyFloat 'f | PyList "'f py_value list"

fun raise_fault :: "fault \<Rightarrow> exn" where
  "raise_fault (Failure m) = EngineError m"
| "raise_fault Interrupt = KeyboardInterrupt"

type_synonym codepoints = "nat list"

record ('w, 't, 'm, 'p, 'f) engine =
  tokenizer_from_pretrained :: "string \<Rightarrow> string option \<Rightarrow> bool \<Rightarrow> 'w \<Rightarrow> (fault + 't) \<times> 'w"
  model_from_pretrained :: "string \<Rightarrow> string option \<Rightarrow> bool \<Rightarrow> 'w \<Rightarrow> (fault + 'm) \<times> 'w"
  make_pipeline :: "'m \<Rightarrow> 't \<Rightarrow> int \<Rightarrow> 'w \<Rightarrow> (fault + 'p) \<times> 'w"
  cuda_is_available :: "'w \<Rightarrow> bool"
  run_pipeline :: "'p \<Rightarrow> codepoints \<Rightarrow> 'w \<Rightarrow> (fault + 'f py_value) \<times> 'w"
  tokenize :: "'t \<Rightarrow> codepoints \<Rightarrow> 'w \<Rightarrow> (fault + string list) \<times> 'w"
  path_exists :: "string \<Rightarrow> 'w \<Rightarrow> bool"
  makedirs :: "string \<Rightarrow> 'w \<Rightarrow> (fault + unit) \<times> 'w"

section \<open>Process state\<close>

text \<open>
  What a mock of the load path would count: every call into the engine, with its arguments
  (source path or hub identifier, \<^verbatim>\<open>cache_dir\<close>, \<^verbatim>\<open>local_files_only\<close>; the device).
\<close>

datatype call =
    TokenizerFromPretrained string "string option" bool
  | ModelFromPretrained string "string option" bool
  | MakePipeline int
  | RunPipeline codepoints
  | Tokenize codepoints
  | MakeDirs string

text \<open>The messages written through \<^verbatim>\<open>logger\<close>, one constructor per message of the source.\<close>

datatype log_record =
    CreatedModelsDirectory string
  | LoadingModel string
  | LoadedFromLocalCache string
  | LocalCacheNotFound string
  | DownloadedAndCached string
  | ErrorLoadingModel string string
  | ErrorProcessingRequest string
  | StartingDownload string
  | SuccessfullyDownloaded string
  | ErrorDownloading string string
  | DownloadFailed string

record 'w process =
  world :: 'w
  calls :: "call list"
  logs :: "log_record list"

text \<open>
  A cache entry is the dict \<^verbatim>\<open>{"tokenizer": ..., "model": ..., "pipeline": ...}\<close> with values of
  type \<^verbatim>\<open>Any\<close>; \<^verbatim>\<open>model_cache\<close> is the global dict from model name to entry.
\<close>

datatype ('t, 'm, 'p) handle = TokenizerH 't | ModelH 'm | PipelineH 'p

type_synonym ('t, 'm, 'p) entry = "(string \<times> ('t, 'm, 'p) handle) list"

record ('w, 't, 'm, 'p) server = "'w process" +
  model_cache :: "(string \<times> ('t, 'm, 'p) entry) list"

definition emit :: "log_record \<Rightarrow> ('w, 'z) process_scheme \<Rightarrow> ('w, 'z) process_scheme" where
  "emit l s = s\<lparr>logs := logs s @ [l]\<rparr>"

definition engine_call ::
  "call \<Rightarrow> ('w \<Rightarrow> (fault + 'a) \<times> 'w) \<Rightarrow> ('w, 'z) process_scheme
     \<Rightarrow> (exn + 'a) \<times> ('w, 'z) process_scheme" where
  "engine_call c f s =
     (case f (world s) of
        (r, w) \<Rightarrow>
          (case r of Inl x \<Rightarrow> Inl (raise_fault x) | Inr v \<Rightarrow> Inr v,
           s\<lparr>world := w, calls := calls s @ [c]\<rparr>))"

section \<open>Loading a model (main.py, download\_and\_cache\_model)\<close>

text \<open>
  The body of each \<^verbatim>\<open>with tqdm(...)\<close> block: tokenizer, model, pipeline, in this order; the
  first exception leaves the block. The progress bar only prints.
\<close>

definition load_handles ::
  "('w, 't, 'm, 'p, 'f) engine \<Rightarrow> string \<Rightarrow> string option \<Rightarrow> bool \<Rightarrow> ('w, 'z) process_scheme
     \<Rightarrow> (exn + 't \<times> 'm \<times> 'p) \<times> ('w, 'z) process_scheme" where
  "load_handles E src cache_dir local_files_only s =
     (case engine_call (TokenizerFromPretrained src cache_dir local_files_only)
             (tokenizer_from_pretrained E src cache_dir local_files_only) s of
        (Inl e, s1) \<Rightarrow> (Inl e, s1)
      | (Inr tokenizer, s1) \<Rightarrow>
          (case engine_call (ModelFromPretrained src cache_dir local_files_only)
                  (model_from_pretrained E src cache_dir local_files_only) s1 of
             (Inl e, s2) \<Rightarrow> (Inl e, s2)
           | (Inr model, s2) \<Rightarrow>
               (let device = (if cuda_is_available E (world s2) then 0 else - 1) in
                case engine_call (MakePipeline device)
                       (make_pipeline E model tokenizer device) s2 of
                  (Inl e, s3) \<Rightarrow> (Inl e, s3)
                | (Inr pipe, s3) \<Rightarrow> (Inr (tokenizer, model, pipe), s3))))"

text \<open>
  The inner \<^verbatim>\<open>try\<close>: load from the per-model directory with \<^verbatim>\<open>local_files_only=True\<close>; on any
  \<^verbatim>\<open>Exception\<close>, load from the hub identifier with \<^verbatim>\<open>cache_dir\<close> set to that directory.
\<close>

definition load_local_then_remote ::
  "('w, 't, 'm, 'p, 'f) engine \<Rightarrow> string \<Rightarrow> string \<Rightarrow> string \<Rightarrow> ('w, 'z) process_scheme
     \<Rightarrow> (exn + 't \<times> 'm \<times> 'p) \<times> ('w, 'z) process_scheme" where
  "load_local_then_remote E model_name model_id cache_dir s =
     (case load_handles E cache_dir None True s of
        (Inr h, s1) \<Rightarrow> (Inr h, emit (LoadedFromLocalCache model_name) s1)
      | (Inl e, s1) \<Rightarrow>
          (if is_Exception e then
             (case load_handles E model_id (Some cache_dir) False
                     (emit (LocalCacheNotFound model_name) s1) of
                (Inr h, s2) \<Rightarrow> (Inr h, emit (DownloadedAndCached model_name) s2)
              | (Inl e', s2) \<Rightarrow> (Inl e', s2))
           else (Inl e, s1)))"

definition new_entry :: "'t \<Rightarrow> 'm \<Rightarrow> 'p \<Rightarrow> ('t, 'm, 'p) entry" where
  "new_entry tokenizer model pipe =
     [(''tokenizer'', TokenizerH tokenizer), (''model'', ModelH model), (''pipeline'', PipelineH pipe)]"

definition download_and_cache_model ::
  "('w, 't, 'm, 'p, 'f) engine \<Rightarrow> string \<Rightarrow> ('w, 't, 'm, 'p) server
     \<Rightarrow> (exn + ('t, 'm, 'p) entry) \<times> ('w, 't, 'm, 'p) server" where
  "download_and_cache_model E model_name s =
     (case map_of (model_cache s) model_name of
        Some cached \<Rightarrow> (Inr cached, s)
      | None \<Rightarrow>
          (case map_of SUPPORTED_MODELS model_name of
             None \<Rightarrow> (Inl (ValueError (''Model '' @ model_name @ '' not supported'')), s)
           | Some model_id \<Rightarrow>
               (case load_local_then_remote E model_name model_id
                       (path_join MODELS_DIR model_name) (emit (LoadingModel model_name) s) of
                  (Inr (tokenizer, model, pipe), s1) \<Rightarrow>
                    (Inr (new_entry tokenizer model pipe),
                     s1\<lparr>model_cache :=
                          AList.update model_name (new_entry tokenizer model pipe) (model_cache s1)\<rparr>)
                | (Inl e, s1) \<Rightarrow>
                    (if is_Exception e
                     then (Inl e, emit (ErrorLoadingModel model_name (str_exn e)) s1)
                     else (Inl e, s1)))))"

section \<open>The HTTP service layer (main.py)\<close>

text \<open>
  \<^verbatim>\<open>ModelRequest\<close> and \<^verbatim>\<open>ModelResponse\<close>. The fields carry a prefix because the two classes
  share three field names. \<^verbatim>\<open>features\<close> is a dict with integer and list values.
\<close>

record model_request =
  req_text :: codepoints
  req_model_name :: string
  req_task :: string

datatype feature_value = IntVal nat | TokensVal "string list"

record 'f model_response =
  resp_model_name :: string
  resp_text :: codepoints
  resp_task :: string
  embeddings :: "'f list list option"
  features :: "(string \<times> feature_value) list option"
  error :: "string option"

record models_listing =
  supported_models :: "string list"
  loaded_models :: "string list"

record health =
  status :: string
  models_loaded :: nat
  cuda_available :: bool

text \<open>
  The validation of the field \<^verbatim>\<open>embeddings: Optional[List[List[float]]]\<close> when a
  \<^verbatim>\<open>ModelResponse\<close> is built: a list of lists of numbers is accepted as it is, anything else is
  refused.
\<close>

fun as_float :: "'f py_value \<Rightarrow> 'f option" where
  "as_float (PyFloat x) = Some x"
| "as_float (PyList _) = None"

fun as_list :: "('f py_value \<Rightarrow> 'a option) \<Rightarrow> 'f py_value \<Rightarrow> 'a list option" where
  "as_list item (PyList xs) = those (map item xs)"
| "as_list item (PyFloat _) = None"

definition validate_embeddings :: "'f py_value \<Rightarrow> 'f list list option" where
  "validate_embeddings v = as_list (as_list as_float) v"

text \<open>
  The body of the \<^verbatim>\<open>try\<close> block of \<^verbatim>\<open>predict\<close>. Building the response of the first branch
  validates what the pipeline returned; the other responses are built from values that have
  the declared types.
\<close>

definition predict_try ::
  "('w, 't, 'm, 'p, 'f) engine \<Rightarrow> model_request \<Rightarrow> ('w, 't, 'm, 'p) server
     \<Rightarrow> (exn + 'f model_response) \<times> ('w, 't, 'm, 'p) server" where
  "predict_try E request s =
     (if req_model_name request \<notin> set (keys SUPPORTED_MODELS) then
        (Inl (HTTPException 400
                (''Model '' @ req_model_name request @ '' not supported. Available models: ''
                   @ repr_list (keys SUPPORTED_MODELS))), s)
      else
        (case download_and_cache_model E (req_model_name request) s of
           (Inl e, s1) \<Rightarrow> (Inl e, s1)
         | (Inr model_data, s1) \<Rightarrow>
             (case map_of model_data ''pipeline'' of
                None \<Rightarrow> (Inl (KeyError ''pipeline''), s1)
              | Some pipeline_obj \<Rightarrow>
                  (if req_task request = ''feature-extraction'' then
                     (case pipeline_obj of
                        PipelineH p \<Rightarrow>
                          (case engine_call (RunPipeline (req_text request))
                                  (run_pipeline E p (req_text request)) s1 of
                             (Inl e, s2) \<Rightarrow> (Inl e, s2)
                           | (Inr result, s2) \<Rightarrow>
                               (case validate_embeddings result of
                                  None \<Rightarrow> (Inl ValidationError, s2)
                                | Some vectors \<Rightarrow>
                                    (Inr \<lparr>resp_model_name = req_model_name request,
                                          resp_text = req_text request,
                                          resp_task = req_task request,
                                          embeddings = Some vectors,
                                          features = None,
                                          error = None\<rparr>, s2)))
                      | _ \<Rightarrow> (Inl (TypeError ''object is not callable''), s1))
                   else
                     (case map_of model_data ''tokenizer'' of
                        None \<Rightarrow> (Inl (KeyError ''tokenizer''), s1)
                      | Some (TokenizerH t) \<Rightarrow>
                          (case engine_call (Tokenize (req_text request))
                                  (tokenize E t (req_text request)) s1 of
                             (Inl e, s2) \<Rightarrow> (Inl e, s2)
                           | (Inr tokens, s2) \<Rightarrow>
                               (Inr \<lparr>resp_model_name = req_model_name request,
                                     resp_text = req_text request,
                                     resp_task = req_task request,
                                     embeddings = None,
                                     features = Some
                                       [(''num_tokens'', IntVal (length tokens)),
                                        (''tokens'', TokensVal (take 50 tokens)),
                                        (''text_length'', IntVal (length (req_text request)))],
                                     error = None\<rparr>, s2))
                      | Some _ \<Rightarrow> (Inl (AttributeError ''tokenize''), s1))))))"

text \<open>
  \<^verbatim>\<open>predict\<close> with its handlers: an \<open>HTTPException\<close> is re-raised, any other \<^verbatim>\<open>Exception\<close> is
  logged and returned in the \<open>error\<close> field of a normal response.
\<close>

definition predict ::
  "('w, 't, 'm, 'p, 'f) engine \<Rightarrow> model_request \<Rightarrow> ('w, 't, 'm, 'p) server
     \<Rightarrow> (exn + 'f model_response) \<times> ('w, 't, 'm, 'p) server" where
  "predict E request s =
     (case predict_try E request s of
        (Inr response, s1) \<Rightarrow> (Inr response, s1)
      | (Inl e, s1) \<Rightarrow>
          (if is_HTTPException e then (Inl e, s1)
           else if is_Exception e then
             (Inr \<lparr>resp_model_name = req_model_name request,
                   resp_text = req_text request,
                   resp_task = req_task request,
                   embeddings = None,
                   features = None,
                   error = Some (str_exn e)\<rparr>,
              emit (ErrorProcessingRequest (str_exn e)) s1)
           else (Inl e, s1)))"

text \<open>
  \<^verbatim>\<open>load_model\<close>: its single handler is \<^verbatim>\<open>except Exception\<close>, and \<open>HTTPException\<close> is an
  \<^verbatim>\<open>Exception\<close>.
\<close>

definition load_model_try ::
  "('w, 't, 'm, 'p, 'f) engine \<Rightarrow> string \<Rightarrow> ('w, 't, 'm, 'p) server
     \<Rightarrow> (exn + (string \<times> string) list) \<times> ('w, 't, 'm, 'p) server" where
  "load_model_try E model_name s =
     (if model_name \<notin> set (keys SUPPORTED_MODELS) then
        (Inl (HTTPException 400 (''Model '' @ model_name @ '' not supported'')), s)
      else
        (case download_and_cache_model E model_name s of
           (Inl e, s1) \<Rightarrow> (Inl e, s1)
         | (Inr _, s1) \<Rightarrow>
             (Inr [(''message'', ''Model '' @ model_name @ '' loaded successfully'')], s1)))"

definition load_model ::
  "('w, 't, 'm, 'p, 'f) engine \<Rightarrow> string \<Rightarrow> ('w, 't, 'm, 'p) server
     \<Rightarrow> (exn + (string \<times> string) list) \<times> ('w, 't, 'm, 'p) server" where
  "load_model E model_name s =
     (case load_model_try E model_name s of
        (Inr message, s1) \<Rightarrow> (Inr message, s1)
      | (Inl e, s1) \<Rightarrow>
          (if is_Exception e then (Inl (HTTPException 500 (str_exn e)), s1)
           else (Inl e, s1)))"

definition list_models :: "('w, 't, 'm, 'p) server \<Rightarrow> models_listing" where
  "list_models s =
     \<lparr>supported_models = keys SUPPORTED_MODELS, loaded_models = keys (model_cache s)\<rparr>"

definition health_check :: "('w, 't, 'm, 'p, 'f) engine \<Rightarrow> ('w, 't, 'm, 'p) server \<Rightarrow> health" where
  "health_check E s =
     \<lparr>status = ''healthy'',
      models_loaded = length (model_cache s),
      cuda_available = cuda_is_available E (world s)\<rparr>"

text \<open>
  The status line the framework sends: 200 for a returned value, the status of an
  \<open>HTTPException\<close>, 500 for any other \<^verbatim>\<open>Exception\<close> that leaves the handler; an interrupt
  sends nothing.
\<close>

fun http_status :: "exn + 'a \<Rightarrow> nat option" where
  "http_status (Inr _) = Some 200"
| "http_status (Inl (HTTPException c _)) = Some c"
| "http_status (Inl KeyboardInterrupt) = None"
| "http_status (Inl _) = Some 500"

text \<open>
  The process as a whole. The handlers are coroutines that never await, so the event loop runs
  each of them to its end before the next one starts: requests are served one after the other,
  each on the state the previous one left. The root endpoint is static.
\<close>

datatype request =
    GetRoot
  | GetModels
  | GetHealth
  | PostPredict model_request
  | PostLoadModel string

datatype 'f reply =
    RootReply string string "string list"
  | ModelsReply models_listing
  | HealthReply health
  | PredictReply "exn + 'f model_response"
  | LoadModelReply "exn + (string \<times> string) list"

definition root :: "'f reply" where
  "root = RootReply ''LogPrompt - Transformer Models API'' ''1.0.0'' (keys SUPPORTED_MODELS)"

fun serve ::
  "('w, 't, 'm, 'p, 'f) engine \<Rightarrow> request \<Rightarrow> ('w, 't, 'm, 'p) server
     \<Rightarrow> 'f reply \<times> ('w, 't, 'm, 'p) server" where
  "serve E GetRoot s = (root, s)"
| "serve E GetModels s = (ModelsReply (list_models s), s)"
| "serve E GetHealth s = (HealthReply (health_check E s), s)"
| "serve E (PostPredict request) s = (case predict E request s of (r, s1) \<Rightarrow> (PredictReply r, s1))"
| "serve E (PostLoadModel model_name) s =
     (case load_model E model_name s of (r, s1) \<Rightarrow> (LoadModelReply r, s1))"

fun run ::
  "('w, 't, 'm, 'p, 'f) engine \<Rightarrow> request list \<Rightarrow> ('w, 't, 'm, 'p) server
     \<Rightarrow> ('w, 't, 'm, 'p) server" where
  "run E [] s = s"
| "run E (r # rs) s = run E rs (snd (serve E r s))"

text \<open>
  The state when the first request arrives: \<^verbatim>\<open>model_cache = {}\<close>, no engine call yet. The
  startup hook has created the models directory if it was missing and has logged what it found
  there; \<open>w\<close> is the world after that, and its log lines, none of which is about a load, are
  left out.
\<close>

definition start :: "'w \<Rightarrow> ('w, 't, 'm, 'p) server" where
  "start w = \<lparr>world = w, calls = [], logs = [], model_cache = []\<rparr>"

section \<open>The bulk downloader (download\_models.py)\<close>

text \<open>
  The script has the same registry and storage directory as the service. What it prints is kept
  as a list of lines, one constructor per \<^verbatim>\<open>print\<close> of the source.
\<close>

datatype line =
    Banner
  | DownloadingModels nat
  | StorageDirectory
  | CudaAvailable bool
  | Processing nat nat string
  | FailedCount nat
  | FailedItem string string
  | SucceededCount nat
  | AllDownloaded
  | StoredIn
  | StartHint
  | InterruptedByUser

record 'w downloader = "'w process" +
  stdout :: "line list"

definition print :: "line \<Rightarrow> 'w downloader \<Rightarrow> 'w downloader" where
  "print l s = s\<lparr>stdout := stdout s @ [l]\<rparr>"

definition ensure_models_directory ::
  "('w, 't, 'm, 'p, 'f) engine \<Rightarrow> ('w, 'z) process_scheme
     \<Rightarrow> (exn + unit) \<times> ('w, 'z) process_scheme" where
  "ensure_models_directory E s =
     (if \<not> path_exists E MODELS_DIR (world s) then
        (case engine_call (MakeDirs MODELS_DIR) (makedirs E MODELS_DIR) s of
           (Inl e, s1) \<Rightarrow> (Inl e, s1)
         | (Inr _, s1) \<Rightarrow> (Inr (), emit (CreatedModelsDirectory MODELS_DIR) s1))
      else (Inr (), s))"

text \<open>
  \<^verbatim>\<open>download_model\<close>: always the remote load, with \<^verbatim>\<open>cache_dir\<close> the per-model directory; an
  \<^verbatim>\<open>Exception\<close> is logged and raised again.
\<close>

definition download_model ::
  "('w, 't, 'm, 'p, 'f) engine \<Rightarrow> string \<Rightarrow> string \<Rightarrow> ('w, 'z) process_scheme
     \<Rightarrow> (exn + ('t, 'm, 'p) entry) \<times> ('w, 'z) process_scheme" where
  "download_model E model_name model_id s =
     (case load_handles E model_id (Some (path_join MODELS_DIR model_name)) False
             (emit (StartingDownload model_name) s) of
        (Inr (tokenizer, model, pipe), s1) \<Rightarrow>
          (Inr (new_entry tokenizer model pipe), emit (SuccessfullyDownloaded model_name) s1)
      | (Inl e, s1) \<Rightarrow>
          (if is_Exception e
           then (Inl e, emit (ErrorDownloading model_name (str_exn e)) s1)
           else (Inl e, s1)))"

text \<open>
  The \<^verbatim>\<open>for\<close> loop of \<^verbatim>\<open>download_all_models\<close> over the items still to do, with the counter of
  \<^verbatim>\<open>enumerate\<close> and the list \<^verbatim>\<open>failed_models\<close>. Its \<^verbatim>\<open>except Exception\<close> appends and continues.
\<close>

fun download_loop ::
  "('w, 't, 'm, 'p, 'f) engine \<Rightarrow> nat \<Rightarrow> nat \<Rightarrow> (string \<times> string) list
     \<Rightarrow> (string \<times> string) list \<Rightarrow> 'w downloader
     \<Rightarrow> (exn + (string \<times> string) list) \<times> 'w downloader" where
  "download_loop E total_models i [] failed_models s = (Inr failed_models, s)"
| "download_loop E total_models i ((model_name, model_id) # rest) failed_models s =
     (case download_model E model_name model_id
             (print (Processing i total_models model_name) s) of
        (Inr _, s1) \<Rightarrow> download_loop E total_models (Suc i) rest failed_models s1
      | (Inl e, s1) \<Rightarrow>
          (if is_Exception e
           then download_loop E total_models (Suc i) rest
                  (failed_models @ [(model_name, str_exn e)]) s1
           else (Inl e, s1)))"

fun print_failed :: "(string \<times> string) list \<Rightarrow> 'w downloader \<Rightarrow> 'w downloader" where
  "print_failed [] s = s"
| "print_failed ((model_name, err) # rest) s = print_failed rest (print (FailedItem model_name err) s)"

definition print_summary :: "nat \<Rightarrow> (string \<times> string) list \<Rightarrow> 'w downloader \<Rightarrow> 'w downloader" where
  "print_summary total_models failed_models s =
     print StartHint (print StoredIn
       (if failed_models \<noteq> [] then
          print (SucceededCount (total_models - length failed_models))
            (print_failed failed_models (print (FailedCount (length failed_models)) s))
        else print AllDownloaded s))"

text \<open>
  \<^verbatim>\<open>download_all_models\<close> and \<^verbatim>\<open>main\<close>. The registry they iterate is a parameter, so that
  a statement can range over every iteration order; the script runs them on
  \<open>SUPPORTED_MODELS\<close>. \<^verbatim>\<open>main\<close> returns the exit code of the process.
\<close>

definition download_all_models ::
  "('w, 't, 'm, 'p, 'f) engine \<Rightarrow> (string \<times> string) list \<Rightarrow> 'w downloader
     \<Rightarrow> (exn + unit) \<times> 'w downloader" where
  "download_all_models E registry s =
     (case ensure_models_directory E s of
        (Inl e, s1) \<Rightarrow> (Inl e, s1)
      | (Inr _, s1) \<Rightarrow>
          (case download_loop E (length registry) 1 registry []
                  (print (CudaAvailable (cuda_is_available E (world s1)))
                     (print StorageDirectory
                        (print (DownloadingModels (length registry)) (print Banner s1)))) of
             (Inl e, s2) \<Rightarrow> (Inl e, s2)
           | (Inr failed_models, s2) \<Rightarrow>
               (Inr (), print_summary (length registry) failed_models s2)))"

definition main ::
  "('w, 't, 'm, 'p, 'f) engine \<Rightarrow> (string \<times> string) list \<Rightarrow> 'w downloader
     \<Rightarrow> nat \<times> 'w downloader" where
  "main E registry s =
     (case download_all_models E registry s of
        (Inr _, s1) \<Rightarrow> (0, s1)
      | (Inl e, s1) \<Rightarrow>
          (if e = KeyboardInterrupt then (1, print InterruptedByUser s1)
           else (1, emit (DownloadFailed (str_exn e)) s1)))"

definition downloader_start :: "'w \<Rightarrow> 'w downloader" where
  "downloader_start w = \<lparr>world = w, calls = [], logs = [], stdout = []\<rparr>"

section \<open>Observations used in the statements\<close>

text \<open>
  The names that were ever loaded successfully, read off the log: the service writes
  \<open>LoadedFromLocalCache\<close> or \<open>DownloadedAndCached\<close> exactly when a load has gone through.
\<close>

fun loaded_name :: "log_record \<Rightarrow> string list" where
  "loaded_name (LoadedFromLocalCache n) = [n]"
| "loaded_name (DownloadedAndCached n) = [n]"
| "loaded_name _ = []"

definition loaded_names :: "log_record list \<Rightarrow> string list" where
  "loaded_names ls = concat (map loaded_name ls)"

text \<open>
  An entry is \<open>built\<close> when it is the three-key dict of a tokenizer, a model and a pipeline
  that the engine made from that model and that tokenizer.
\<close>

definition built :: "('w, 't, 'm, 'p, 'f) engine \<Rightarrow> ('t, 'm, 'p) entry \<Rightarrow> bool" where
  "built E e \<longleftrightarrow>
     (\<exists>t m p dev w w'. e = new_entry t m p \<and> make_pipeline E m t dev w = (Inr p, w'))"

text \<open>
  One request changes cache and load log in one of two ways: not at all, or by one new name,
  appended to both.
\<close>

definition same_cache :: "('w, 't, 'm, 'p) server \<Rightarrow> ('w, 't, 'm, 'p) server \<Rightarrow> bool" where
  "same_cache s s' \<longleftrightarrow>
     model_cache s' = model_cache s \<and> loaded_names (logs s') = loaded_names (logs s)"

definition cache_step ::
  "('w, 't, 'm, 'p, 'f) engine \<Rightarrow> ('w, 't, 'm, 'p) server \<Rightarrow> ('w, 't, 'm, 'p) server \<Rightarrow> bool" where
  "cache_step E s s' \<longleftrightarrow>
     same_cache s s' \<or>
     (\<exists>n e. map_of (model_cache s) n = None \<and> n \<in> set (keys SUPPORTED_MODELS) \<and> built E e \<and>
            model_cache s' = model_cache s @ [(n, e)] \<and>
            loaded_names (logs s') = loaded_names (logs s) @ [n])"

definition cache_inv :: "('w, 't, 'm, 'p, 'f) engine \<Rightarrow> ('w, 't, 'm, 'p) server \<Rightarrow> bool" where
  "cache_inv E s \<longleftrightarrow>
     keys (model_cache s) = loaded_names (logs s) \<and>
     distinct (keys (model_cache s)) \<and>
     set (keys (model_cache s)) \<subseteq> set (keys SUPPORTED_MODELS) \<and>
     (\<forall>e \<in> snd ` set (model_cache s). built E e)"

text \<open>The number of the fields \<open>embeddings\<close>, \<open>features\<close>, \<open>error\<close> of a response that are set.\<close>

definition populated :: "'f model_response \<Rightarrow> nat" where
  "populated r =
     (if embeddings r = None then 0 else 1) + (if features r = None then 0 else 1) +
     (if error r = None then 0 else 1)"

text \<open>
  What the downloader shows: the models it announced, with their number and the total; the
  failures listed in its summary; and the failures that \<open>download_model\<close> logged.
\<close>

fun processing_line :: "line \<Rightarrow> (nat \<times> nat \<times> string) list" where
  "processing_line (Processing i total_models n) = [(i, total_models, n)]"
| "processing_line _ = []"

definition processing :: "line list \<Rightarrow> (nat \<times> nat \<times> string) list" where
  "processing ls = concat (map processing_line ls)"

fun failed_item :: "line \<Rightarrow> (string \<times> string) list" where
  "failed_item (FailedItem n m) = [(n, m)]"
| "failed_item _ = []"

definition failed_items :: "line list \<Rightarrow> (string \<times> string) list" where
  "failed_items ls = concat (map failed_item ls)"

fun download_error :: "log_record \<Rightarrow> (string \<times> string) list" where
  "download_error (ErrorDownloading n m) = [(n, m)]"
| "download_error _ = []"

definition download_errors :: "log_record list \<Rightarrow> (string \<times> string) list" where
  "download_errors ls = concat (map download_error ls)"

section \<open>An engine for the examples\<close>

text \<open>
  A small engine on which the statements below are run. Its world is the list of directories
  that hold a model. A local load succeeds when its directory is in the list; a remote load
  succeeds when the hub has the identifier, and then stores into \<^verbatim>\<open>cache_dir\<close>. The hub has
  every model of the registry but \<^verbatim>\<open>roberta-large\<close>. A text has one token in front and one
  token for each code point; the pipeline returns one vector of two numbers for each token,
  as a list of lists.
\<close>

definition hub :: "string list" where
  "hub = [''bert-base-uncased'', ''bert-large-uncased'', ''roberta-base'',
          ''albert-base-v1'', ''albert-base-v2'']"

definition from_pretrained :: "string \<Rightarrow> string option \<Rightarrow> bool \<Rightarrow> string list \<Rightarrow> (fault + string) \<times> string list" where
  "from_pretrained src cache_dir local_files_only w =
     (if local_files_only then
        (if src \<in> set w then (Inr src, w) else (Inl (Failure ''no local files''), w))
      else if src \<in> set hub then
        (Inr src, (case cache_dir of Some d \<Rightarrow> d # w | None \<Rightarrow> w))
      else (Inl (Failure ''not on the hub''), w))"

definition disk_engine :: "(string list, string, string, string, int) engine" where
  "disk_engine =
     \<lparr>tokenizer_from_pretrained = from_pretrained,
      model_from_pretrained = from_pretrained,
      make_pipeline = (\<lambda>m t dev w. (Inr t, w)),
      cuda_is_available = (\<lambda>w. False),
      run_pipeline = (\<lambda>p txt w. (Inr (PyList (PyList [PyFloat 0, PyFloat 0]
                                   # map (\<lambda>c. PyList [PyFloat (int c), PyFloat 0]) txt)), w)),
      tokenize = (\<lambda>t txt w. (Inr (''[CLS]'' # map (\<lambda>c. [char_of c]) txt), w)),
      path_exists = (\<lambda>p w. p \<in> set w),
      makedirs = (\<lambda>p w. (Inr (), p # w))\<rparr>"

text \<open>The entry and the state after the first load of \<^verbatim>\<open>roberta-base\<close> on an empty disk.\<close>

definition roberta_base_entry :: "(string, string, string) entry" where
  "roberta_base_entry =
     [(''tokenizer'', TokenizerH ''roberta-base''), (''model'', ModelH ''roberta-base''),
      (''pipeline'', PipelineH ''roberta-base'')]"

definition after_roberta_base :: "(string list, string, string, string) server" where
  "after_roberta_base =
     \<lparr>world = [''./models/roberta-base'', ''./models/roberta-base''],
      calls = [TokenizerFromPretrained ''./models/roberta-base'' None True,
               TokenizerFromPretrained ''roberta-base'' (Some ''./models/roberta-base'') False,
               ModelFromPretrained ''roberta-base'' (Some ''./models/roberta-base'') False,
               MakePipeline (- 1)],
      logs = [LoadingModel ''roberta-base'', LocalCacheNotFound ''roberta-base'',
              DownloadedAndCached ''roberta-base''],
      model_cache = [(''roberta-base'', roberta_base_entry)]\<rparr>"

definition hi_request :: "string \<Rightarrow> string \<Rightarrow> model_request" where
  "hi_request name task = \<lparr>req_text = [72, 105], req_model_name = name, req_task = task\<rparr>"

definition long_request :: "string \<Rightarrow> string \<Rightarrow> model_request" where
  "long_request name task = \<lparr>req_text = replicate 60 97, req_model_name = name, req_task = task\<rparr>"

text \<open>The same engine with a user who interrupts as soon as \<^verbatim>\<open>roberta-base\<close> is fetched.\<close>

definition impatient_engine :: "(string list, string, string, string, int) engine" where
  "impatient_engine =
     disk_engine\<lparr>tokenizer_from_pretrained :=
       (\<lambda>src cache_dir local_files_only w.
          if src = ''roberta-base'' then (Inl Interrupt, w)
          else from_pretrained src cache_dir local_files_only w)\<rparr>"





section \<open>Frame facts: what a block leaves untouched\<close>

lemma str_nat_400: "str_nat 400 = ''400''"
  by code_simp

lemma engine_callD:
  assumes "engine_call c f s = (r, s')"
  shows "logs s' = logs s" and "calls s' = calls s @ [c]"
    and "world s' = snd (f (world s))"
    and "r = (case fst (f (world s)) of Inl x \<Rightarrow> Inl (raise_fault x) | Inr v \<Rightarrow> Inr v)"
  using assms by (auto simp: engine_call_def split: prod.splits)

lemma engine_call_cacheD: "engine_call c f s = (r, s') \<Longrightarrow> model_cache s' = model_cache s"
  by (auto simp: engine_call_def split: prod.splits)

lemma engine_call_stdoutD: "engine_call c f s = (r, s') \<Longrightarrow> stdout s' = stdout s"
  by (auto simp: engine_call_def split: prod.splits)

lemma emit_simps [simp]:
  "model_cache (emit l s) = model_cache s"
  "stdout (emit l d) = stdout d"
  "logs (emit l p) = logs p @ [l]"
  "calls (emit l q) = calls q"
  "world (emit l r) = world r"
  by (simp_all add: emit_def)

lemma load_handles_cacheD:
  "load_handles E src cd lfo s = (r, s') \<Longrightarrow> model_cache s' = model_cache s"
  unfolding load_handles_def Let_def
  by (auto split: prod.splits sum.splits if_splits dest!: engine_call_cacheD)

lemma load_handles_logsD: "load_handles E src cd lfo s = (r, s') \<Longrightarrow> logs s' = logs s"
  unfolding load_handles_def Let_def
  by (auto split: prod.splits sum.splits if_splits dest!: engine_callD(1))

lemma load_handles_stdoutD: "load_handles E src cd lfo s = (r, s') \<Longrightarrow> stdout s' = stdout s"
  unfolding load_handles_def Let_def
  by (auto split: prod.splits sum.splits if_splits dest!: engine_call_stdoutD)


lemma load_handles_downloaderD:
  "load_handles E src cd lfo s = (r, s') \<Longrightarrow> stdout s' = stdout s \<and> logs s' = logs s"
  by (auto dest: load_handles_stdoutD load_handles_logsD)

lemma engine_call_downloaderD:
  "engine_call c f s = (r, s') \<Longrightarrow> stdout s' = stdout s \<and> logs s' = logs s"
  by (auto dest: engine_call_stdoutD engine_callD(1))

section \<open>What a load does to cache and log\<close>

lemma loaded_names_simps [simp]:
  "loaded_names [] = []"
  "loaded_names (xs @ ys) = loaded_names xs @ loaded_names ys"
  "loaded_names (l # ls) = loaded_name l @ loaded_names ls"
  by (simp_all add: loaded_names_def)

lemma update_fresh: "map_of al k = None \<Longrightarrow> AList.update k v al = al @ [(k, v)]"
  by (induction al) auto

lemma in_registry_iff: "n \<in> set (keys SUPPORTED_MODELS) \<longleftrightarrow> map_of SUPPORTED_MODELS n \<noteq> None"
  by (simp add: keys_def map_of_eq_None_iff)

lemma load_handles_builtD:
  "load_handles E src cd lfo s = (Inr (t, m, p), s') \<Longrightarrow> built E (new_entry t m p)"
  unfolding load_handles_def Let_def built_def
  apply (auto split: prod.splits sum.splits if_splits dest!: engine_callD(4))
   apply (metis prod.collapse)+
  done

lemma load_handles_serverD:
  "load_handles E src cd lfo s = (r, s') \<Longrightarrow>
     model_cache s' = model_cache s \<and> logs s' = logs s \<and>
     (\<forall>t m p. r = Inr (t, m, p) \<longrightarrow> built E (new_entry t m p))"
  by (auto dest: load_handles_cacheD load_handles_logsD load_handles_builtD)

lemma llr_effect:
  assumes "load_local_then_remote E n mid dir s = (r, s')"
  shows "model_cache s' = model_cache s"
    and "loaded_names (logs s') = loaded_names (logs s) @ (case r of Inr _ \<Rightarrow> [n] | Inl _ \<Rightarrow> [])"
    and "\<And>t m p. r = Inr (t, m, p) \<Longrightarrow> built E (new_entry t m p)"
  using assms unfolding load_local_then_remote_def
  by (auto split: prod.splits sum.splits if_splits dest!: load_handles_serverD)

lemma dacm_effect:
  assumes "download_and_cache_model E n s = (r, s')"
  shows "(map_of (model_cache s) n \<noteq> None \<and> r = Inr (the (map_of (model_cache s) n)) \<and> s' = s)
       \<or> (map_of (model_cache s) n = None \<and> (\<exists>e. r = Inl e) \<and> model_cache s' = model_cache s
            \<and> loaded_names (logs s') = loaded_names (logs s))
       \<or> (map_of (model_cache s) n = None \<and> n \<in> set (keys SUPPORTED_MODELS)
            \<and> (\<exists>e. r = Inr e \<and> built E e \<and> model_cache s' = model_cache s @ [(n, e)])
            \<and> loaded_names (logs s') = loaded_names (logs s) @ [n])"
proof (cases "map_of (model_cache s) n")
  case (Some e)
  with assms show ?thesis by (simp add: download_and_cache_model_def)
next
  case None
  show ?thesis
  proof (cases "map_of SUPPORTED_MODELS n")
    case N2: None
    with None assms show ?thesis by (auto simp: download_and_cache_model_def)
  next
    case (Some mid)
    then have reg: "n \<in> set (keys SUPPORTED_MODELS)"
      by (simp add: in_registry_iff)
    obtain r0 s0 where l: "load_local_then_remote E n mid (path_join MODELS_DIR n)
        (emit (LoadingModel n) s) = (r0, s0)" by fastforce
    note eff = llr_effect[OF l]
    show ?thesis
    proof (cases r0)
      case (Inl e)
      with assms None Some l eff show ?thesis
        by (auto simp: download_and_cache_model_def split: if_splits)
    next
      case (Inr h)
      obtain t m p where h: "h = (t, m, p)" by (cases h) auto
      with assms None Some l eff Inr reg show ?thesis
        by (auto simp: download_and_cache_model_def update_fresh)
    qed
  qed
qed

section \<open>Every request is a cache step\<close>

lemma same_cache_refl [simp]: "same_cache s s"
  by (simp add: same_cache_def)

lemma same_cache_emit [simp]: "same_cache s (emit (ErrorProcessingRequest m) s)"
  by (simp add: same_cache_def)

lemma engine_call_same: "engine_call c f s = (r, s') \<Longrightarrow> same_cache s s'"
  by (auto simp: same_cache_def dest: engine_call_cacheD engine_callD(1))

lemma cache_step_same1: "cache_step E s s1 \<Longrightarrow> same_cache s1 s2 \<Longrightarrow> cache_step E s s2"
  by (auto simp: cache_step_def same_cache_def)

lemma cache_step_refl [simp]: "cache_step E s s"
  by (simp add: cache_step_def)

lemma dacm_step: "download_and_cache_model E n s = (r, s') \<Longrightarrow> cache_step E s s'"
  by (drule dacm_effect) (auto simp: cache_step_def same_cache_def)

lemma predict_try_shape:
  "predict_try E req s = (r, s') \<Longrightarrow>
     s' = s \<or>
     (\<exists>r1 s1. download_and_cache_model E (req_model_name req) s = (r1, s1) \<and>
        (s' = s1 \<or>
         (\<exists>p v r2. r1 = Inr v \<and> map_of v ''pipeline'' = Some (PipelineH p) \<and>
                req_task req = ''feature-extraction'' \<and>
                engine_call (RunPipeline (req_text req)) (run_pipeline E p (req_text req)) s1 = (r2, s')) \<or>
         (\<exists>t v r3. r1 = Inr v \<and> map_of v ''tokenizer'' = Some (TokenizerH t) \<and>
                req_task req \<noteq> ''feature-extraction'' \<and>
                engine_call (Tokenize (req_text req)) (tokenize E t (req_text req)) s1 = (r3, s'))))"
  unfolding predict_try_def
  by (auto split: if_splits prod.splits sum.splits option.splits handle.splits)

lemma predict_try_step: "predict_try E req s = (r, s') \<Longrightarrow> cache_step E s s'"
  by (drule predict_try_shape)
    (auto dest!: dacm_step engine_call_same intro: cache_step_same1)

lemma predict_step: "predict E req s = (r, s') \<Longrightarrow> cache_step E s s'"
  unfolding predict_def
  by (auto split: if_splits prod.splits sum.splits dest!: predict_try_step
      intro: cache_step_same1[OF _ same_cache_emit])

lemma load_model_step: "load_model E n s = (r, s') \<Longrightarrow> cache_step E s s'"
  unfolding load_model_def load_model_try_def
  by (auto split: if_splits prod.splits sum.splits dest!: dacm_step)

lemma serve_step: "serve E rq s = (r, s') \<Longrightarrow> cache_step E s s'"
  by (cases rq) (auto split: prod.splits dest!: predict_step load_model_step)

lemma cache_step_inv:
  assumes inv: "cache_inv E s" and step: "cache_step E s s'"
  shows "cache_inv E s'"
proof (cases "same_cache s s'")
  case True
  then have "model_cache s' = model_cache s" "logs s' = logs s \<or> loaded_names (logs s') = loaded_names (logs s)"
    by (simp_all add: same_cache_def)
  with inv True show ?thesis unfolding cache_inv_def same_cache_def by metis
next
  case False
  with step obtain n e where fresh: "map_of (model_cache s) n = None"
    and reg: "n \<in> set (keys SUPPORTED_MODELS)" and b: "built E e"
    and c: "model_cache s' = model_cache s @ [(n, e)]"
    and l: "loaded_names (logs s') = loaded_names (logs s) @ [n]"
    by (auto simp: cache_step_def)
  from fresh have nin: "n \<notin> set (keys (model_cache s))"
    by (simp add: keys_def map_of_eq_None_iff)
  have k: "keys (model_cache s') = keys (model_cache s) @ [n]"
    by (simp add: c keys_def)
  from inv have i1: "keys (model_cache s) = loaded_names (logs s)"
    and i2: "distinct (keys (model_cache s))"
    and i3: "set (keys (model_cache s)) \<subseteq> set (keys SUPPORTED_MODELS)"
    and i4: "\<forall>e \<in> snd ` set (model_cache s). built E e"
    unfolding cache_inv_def by blast+
  have "keys (model_cache s') = loaded_names (logs s')" by (simp add: k l i1)
  moreover have "distinct (keys (model_cache s'))" using i2 nin by (simp add: k)
  moreover have "set (keys (model_cache s')) \<subseteq> set (keys SUPPORTED_MODELS)"
    using i3 reg by (simp add: k)
  moreover have "\<forall>e \<in> snd ` set (model_cache s'). built E e"
    using i4 b by (auto simp: c)
  ultimately show ?thesis by (simp add: cache_inv_def)
qed

lemma cache_step_keeps:
  "map_of (model_cache s) n = Some e \<Longrightarrow> cache_step E s s' \<Longrightarrow> map_of (model_cache s') n = Some e"
  unfolding cache_step_def same_cache_def
  by (auto simp: map_add_def split: option.splits)

lemma cache_inv_start [simp]: "cache_inv E (start w)"
  by (simp add: cache_inv_def start_def keys_def)

lemma run_inv: "cache_inv E s \<Longrightarrow> cache_inv E (run E rs s)"
  by (induction rs arbitrary: s) (auto intro: cache_step_inv serve_step[OF surjective_pairing])

lemma run_keeps:
  "map_of (model_cache s) n = Some e \<Longrightarrow> map_of (model_cache (run E rs s)) n = Some e"
  by (induction rs arbitrary: s) (auto intro: cache_step_keeps serve_step[OF surjective_pairing])

lemma cache_invD:
  assumes "cache_inv E s"
  shows "keys (model_cache s) = loaded_names (logs s)"
    and "distinct (keys (model_cache s))"
    and "set (keys (model_cache s)) \<subseteq> set (keys SUPPORTED_MODELS)"
    and "\<And>n e. (n, e) \<in> set (model_cache s) \<Longrightarrow> built E e"
  using assms unfolding cache_inv_def by force+

lemma cache_step_keys:
  assumes "cache_step E s s'"
  shows "keys (model_cache s') = keys (model_cache s) \<or>
         (\<exists>n. n \<in> set (keys SUPPORTED_MODELS) \<and> n \<notin> set (keys (model_cache s)) \<and>
              keys (model_cache s') = keys (model_cache s) @ [n])"
proof (cases "same_cache s s'")
  case True
  then show ?thesis by (simp add: same_cache_def)
next
  case False
  with assms obtain n e where "map_of (model_cache s) n = None"
    "n \<in> set (keys SUPPORTED_MODELS)" "model_cache s' = model_cache s @ [(n, e)]"
    by (auto simp: cache_step_def)
  then show ?thesis by (auto simp: keys_def map_of_eq_None_iff)
qed

section \<open>Running the example engine\<close>

lemmas eval_defs = load_model_def load_model_try_def predict_def predict_try_def
  download_and_cache_model_def load_local_then_remote_def load_handles_def engine_call_def
  emit_def disk_engine_def from_pretrained_def hub_def SUPPORTED_MODELS_def MODELS_DIR_def
  path_join_def keys_def start_def new_entry_def Let_def

lemma load_roberta_base_keys: "keys (model_cache (snd (serve disk_engine (PostLoadModel ''roberta-base'') (start [])))) = [''roberta-base'']"
  by (simp add: eval_defs)

section \<open>Results of download\_and\_cache\_model\<close>

lemma dacm_hit:
  "map_of (model_cache s) n = Some e \<Longrightarrow> download_and_cache_model E n s = (Inr e, s)"
  by (simp add: download_and_cache_model_def)

lemma dacm_InrD:
  assumes "download_and_cache_model E n s = (Inr e, s')"
  shows "map_of (model_cache s') n = Some e"
  using dacm_effect[OF assms] by (auto simp: map_add_def)

lemma dacm_InlD:
  assumes "download_and_cache_model E n s = (Inl e, s')"
  shows "model_cache s' = model_cache s"
  using dacm_effect[OF assms] by auto

lemma dacm_roberta_base:
  "download_and_cache_model disk_engine ''roberta-base'' (start []) =
     (Inr roberta_base_entry, after_roberta_base)"
  by (simp add: eval_defs roberta_base_entry_def after_roberta_base_def)

lemma predict_cached_same:
  assumes "map_of (model_cache s) (req_model_name rq) \<noteq> None"
  shows "model_cache (snd (predict E rq s)) = model_cache s"
proof -
  obtain e where e: "map_of (model_cache s) (req_model_name rq) = Some e" using assms by auto
  have "cache_step E s (snd (predict E rq s))" by (rule predict_step[OF surjective_pairing])
  then have "same_cache s (snd (predict E rq s)) \<or> True" by simp
  have d: "download_and_cache_model E (req_model_name rq) s = (Inr e, s)"
    using e by (rule dacm_hit)
  obtain r s' where p: "predict_try E rq s = (r, s')" by fastforce
  from predict_try_shape[OF p] d have "model_cache s' = model_cache s"
    by (auto dest: engine_call_cacheD)
  with p show ?thesis by (auto simp: predict_def split: sum.splits)
qed

section \<open>More runs of the example engine\<close>

lemma dacm_roberta_large:
  "fst (download_and_cache_model disk_engine ''roberta-large'' (start [])) =
     Inl (EngineError ''not on the hub'')"
  by (simp add: eval_defs)

lemma llr_roberta_large:
  "fst (load_local_then_remote disk_engine ''roberta-large'' ''roberta-large''
          (path_join MODELS_DIR ''roberta-large'') (emit (LoadingModel ''roberta-large'') (start []))) =
     Inl (EngineError ''not on the hub'')"
  by (simp add: eval_defs)

lemma run_two_loads:
  "model_cache (run disk_engine [PostLoadModel ''roberta-base'', PostLoadModel ''roberta-large'']
      (start [])) = [(''roberta-base'', roberta_base_entry)]"
  by (simp add: eval_defs roberta_base_entry_def)

lemma after_roberta_base_cached:
  "map_of (model_cache after_roberta_base) ''roberta-base'' = Some roberta_base_entry"
  by (simp add: after_roberta_base_def)

lemma run_two_loads_count:
  "models_loaded (health_check disk_engine
     (run disk_engine [PostLoadModel ''roberta-base'', PostLoadModel ''roberta-large''] (start []))) = 1"
  unfolding health_check_def run_two_loads by simp

lemma predict_try_roberta_large:
  "fst (predict_try disk_engine (hi_request ''roberta-large'' ''tokens'') (start [])) =
     Inl (EngineError ''not on the hub'')"
  by (simp add: eval_defs hi_request_def)

lemma predict_try_invalid:
  "predict_try disk_engine (hi_request ''invalid-model'' ''tokens'') (start []) =
     (Inl (HTTPException 400 (''Model invalid-model not supported. Available models: ''
        @ repr_list (keys SUPPORTED_MODELS))), start [])"
  by (simp add: predict_try_def hi_request_def keys_def SUPPORTED_MODELS_def)

lemma roberta_large_in_registry: "''roberta-large'' \<in> set (keys SUPPORTED_MODELS)"
  by (simp add: keys_def SUPPORTED_MODELS_def)

lemma char_of_examples:
  "char_of (97 :: nat) = CHR ''a''" "char_of (72 :: nat) = CHR ''H''" "char_of (105 :: nat) = CHR ''i''"
  by code_simp+

lemma roberta_base_in_registry: "''roberta-base'' \<in> set (keys SUPPORTED_MODELS)"
  by (simp add: keys_def SUPPORTED_MODELS_def)

lemma roberta_base_entry_lookups:
  "map_of roberta_base_entry ''pipeline'' = Some (PipelineH ''roberta-base'')"
  "map_of roberta_base_entry ''tokenizer'' = Some (TokenizerH ''roberta-base'')"
  by (simp_all add: roberta_base_entry_def)


lemma remote_roberta_base_ok:
  "fst (load_handles disk_engine ''roberta-base'' (Some (''./models/'' @ ''roberta-base'')) False
     (emit (LocalCacheNotFound ''roberta-base'')
        (snd (load_handles disk_engine (''./models/'' @ ''roberta-base'') None True
           (emit (LoadingModel ''roberta-base'') (start [])))))) =
     Inr (''roberta-base'', ''roberta-base'', ''roberta-base'')"
  by (simp add: eval_defs)

section \<open>Unsupported model names\<close>

text \<open>
  For a name that is neither cached nor in the registry, \<open>download_and_cache_model\<close> raises
  the \<open>ValueError\<close> and \<^verbatim>\<open>POST /predict\<close> answers 400; both leave the state as it was.
\<close>

lemma download_and_cache_model_unsupported:
  "map_of (model_cache s) name = None \<Longrightarrow> name \<notin> set (keys SUPPORTED_MODELS) \<Longrightarrow>
     download_and_cache_model E name s = (Inl (ValueError (''Model '' @ name @ '' not supported'')), s)"
  by (simp add: download_and_cache_model_def in_registry_iff)

lemma predict_unsupported:
  "req_model_name rq \<notin> set (keys SUPPORTED_MODELS) \<Longrightarrow>
     http_status (fst (predict E rq s)) = Some 400 \<and> snd (predict E rq s) = s"
  by (simp add: predict_def predict_try_def)

text \<open>
  C1. For a name absent from the registry, \<^verbatim>\<open>POST /load-model/{name}\<close> is claimed to fail with
  HTTP 400. In \<open>load_model\<close> the 400 is raised inside the \<^verbatim>\<open>try\<close> whose only handler is
  \<^verbatim>\<open>except Exception\<close>; the handler catches it and raises a 500 whose detail is the text of the
  400. For the name \<^verbatim>\<open>invalid-model\<close>, in any state and with any engine, the endpoint answers
  500 and leaves the state as it was.
\<close>

theorem load_model_unsupported_answers_500:
  "load_model E ''invalid-model'' s =
     (Inl (HTTPException 500 ''400: Model invalid-model not supported''), s)
   \<and> http_status (fst (load_model E ''invalid-model'' s)) = Some 500"
  by (simp add: load_model_def load_model_try_def keys_def SUPPORTED_MODELS_def str_nat_400)

section \<open>Exceptions that reach predict\<close>

lemma raise_fault_not_http [simp]: "\<not> is_HTTPException (raise_fault x)"
  by (cases x) simp_all

lemma engine_call_not_http: "engine_call c f s = (Inl e, s') \<Longrightarrow> \<not> is_HTTPException e"
  by (auto simp: engine_call_def split: prod.splits sum.splits)

lemma load_handles_not_http: "load_handles E src cd lfo s = (Inl e, s') \<Longrightarrow> \<not> is_HTTPException e"
  unfolding load_handles_def Let_def
  by (auto split: prod.splits sum.splits if_splits dest: engine_call_not_http)

lemma llr_not_http:
  "load_local_then_remote E n mid dir s = (Inl e, s') \<Longrightarrow> \<not> is_HTTPException e"
  unfolding load_local_then_remote_def
  by (auto split: prod.splits sum.splits if_splits dest: load_handles_not_http)

lemma dacm_not_http: "download_and_cache_model E n s = (Inl e, s') \<Longrightarrow> \<not> is_HTTPException e"
  unfolding download_and_cache_model_def
  by (auto split: prod.splits sum.splits if_splits option.splits dest: llr_not_http)

lemma predict_try_http:
  "predict_try E rq s = (Inl (HTTPException c d), s') \<Longrightarrow>
     c = 400 \<and> req_model_name rq \<notin> set (keys SUPPORTED_MODELS) \<and> s' = s"
  unfolding predict_try_def
  by (auto split: prod.splits sum.splits if_splits option.splits handle.splits
      dest: dacm_not_http engine_call_not_http)

lemma predict_try_populated: "predict_try E rq s = (Inr resp, s') \<Longrightarrow>
    populated resp = 1 \<and> error resp = None"
  unfolding predict_try_def
  by (auto simp: populated_def split: prod.splits sum.splits if_splits option.splits handle.splits)

section \<open>Predict when the engine succeeds\<close>

lemma dacm_built:
  assumes inv: "cache_inv E s" and d: "download_and_cache_model E n s = (Inr e, s')"
  shows "built E e"
proof -
  from dacm_effect[OF d] consider
    (hit) "map_of (model_cache s) n \<noteq> None" "e = the (map_of (model_cache s) n)"
    | (new) "built E e"
    by auto
  then show ?thesis
  proof cases
    case hit
    then have "(n, e) \<in> set (model_cache s)" by (auto dest: map_of_SomeD)
    with inv show ?thesis by (rule cache_invD(4))
  next
    case new
    then show ?thesis .
  qed
qed

lemma new_entry_lookups [simp]:
  "map_of (new_entry t m p) ''pipeline'' = Some (PipelineH p)"
  "map_of (new_entry t m p) ''tokenizer'' = Some (TokenizerH t)"
  by (simp_all add: new_entry_def)






lemma predict_features:
  assumes "req_model_name rq \<in> set (keys SUPPORTED_MODELS)"
    and "req_task rq \<noteq> ''feature-extraction''"
    and "download_and_cache_model E (req_model_name rq) s = (Inr entry, s1)"
    and "map_of entry ''pipeline'' = Some h"
    and "map_of entry ''tokenizer'' = Some (TokenizerH t)"
    and "tokenize E t (req_text rq) (world s1) = (Inr toks, w2)"
  shows "fst (predict E rq s) =
       Inr \<lparr>resp_model_name = req_model_name rq, resp_text = req_text rq,
            resp_task = req_task rq, embeddings = None,
            features = Some [(''num_tokens'', IntVal (length toks)),
                             (''tokens'', TokensVal (take 50 toks)),
                             (''text_length'', IntVal (length (req_text rq)))],
            error = None\<rparr>"
  using assms by (simp add: predict_def predict_try_def engine_call_def)

section \<open>The engine calls of a load\<close>



lemma load_handles_calls_ok:
  assumes "load_handles E src cd lfo s = (Inr h, s')"
  shows "\<exists>dev. calls s' = calls s @ [TokenizerFromPretrained src cd lfo,
           ModelFromPretrained src cd lfo, MakePipeline dev]"
  using assms unfolding load_handles_def Let_def
  by (auto split: prod.splits sum.splits if_splits dest!: engine_callD(2))


section \<open>What the downloader prints and logs\<close>

lemma obs_simps [simp]:
  "processing [] = []" "processing (xs @ ys) = processing xs @ processing ys"
  "processing (l # ls) = processing_line l @ processing ls"
  "failed_items [] = []" "failed_items (xs @ ys) = failed_items xs @ failed_items ys"
  "failed_items (l # ls) = failed_item l @ failed_items ls"
  "download_errors [] = []" "download_errors (as @ bs) = download_errors as @ download_errors bs"
  "download_errors (a # as) = download_error a @ download_errors as"
  by (simp_all add: processing_def failed_items_def download_errors_def)

lemma print_simps [simp]:
  "stdout (print l s) = stdout s @ [l]" "logs (print l s) = logs s" "world (print l s) = world s"
  by (simp_all add: print_def)

lemma is_Exception_iff: "is_Exception e \<longleftrightarrow> e \<noteq> KeyboardInterrupt"
  by (cases e) simp_all

lemma download_model_effect:
  assumes "download_model E n mid s = (r, s')"
  shows "stdout s' = stdout s"
    and "download_errors (logs s') = download_errors (logs s) @
           (case r of Inl e \<Rightarrow> if is_Exception e then [(n, str_exn e)] else [] | Inr _ \<Rightarrow> [])"
  using assms unfolding download_model_def
  by (auto split: prod.splits sum.splits if_splits
      dest!: load_handles_downloaderD)

lemma download_loop_effect:
  "download_loop E total_models i reg failed s = (r, s') \<Longrightarrow>
     (case r of
        Inl e \<Rightarrow> e = KeyboardInterrupt
      | Inr failed' \<Rightarrow>
          (\<exists>fs. failed' = failed @ fs \<and>
                download_errors (logs s') = download_errors (logs s) @ fs) \<and>
          processing (stdout s') =
            processing (stdout s) @ map (\<lambda>(k, n). (k, total_models, n)) (enumerate i (map fst reg)) \<and>
          failed_items (stdout s') = failed_items (stdout s))"
proof (induction reg arbitrary: i failed s)
  case Nil
  then show ?case by auto
next
  case (Cons a reg)
  obtain n mid where a: "a = (n, mid)" by (cases a) auto
  obtain r1 s1 where d: "download_model E n mid (print (Processing i total_models n) s) = (r1, s1)"
    by fastforce
  note eff = download_model_effect[OF d]
  show ?case
  proof (cases r1)
    case (Inr x)
    with Cons.prems a d have "download_loop E total_models (Suc i) reg failed s1 = (r, s')" by simp
    from Cons.IH[OF this] eff Inr show ?thesis
      by (auto simp: a split: sum.splits)
  next
    case (Inl e)
    show ?thesis
    proof (cases "is_Exception e")
      case True
      with Cons.prems a d Inl
      have "download_loop E total_models (Suc i) reg (failed @ [(n, str_exn e)]) s1 = (r, s')" by simp
      from Cons.IH[OF this] eff Inl True show ?thesis
        by (auto simp: a split: sum.splits)
    next
      case False
      with Cons.prems a d Inl show ?thesis by (auto simp: is_Exception_iff)
    qed
  qed
qed

lemma print_failed_effect:
  "stdout (print_failed fs s) = stdout s @ map (\<lambda>(n, m). FailedItem n m) fs \<and>
   logs (print_failed fs s) = logs s"
  by (induction fs s rule: print_failed.induct) auto

lemma failed_items_map [simp]: "failed_items (map (\<lambda>(n, m). FailedItem n m) fs) = fs"
  by (induction fs) auto

lemma processing_map [simp]: "processing (map (\<lambda>(n, m). FailedItem n m) fs) = []"
  by (induction fs) auto

lemma print_summary_effect:
  "failed_items (stdout (print_summary total_models fs s)) = failed_items (stdout s) @ fs"
  "processing (stdout (print_summary total_models fs s)) = processing (stdout s)"
  "logs (print_summary total_models fs s) = logs s"
  by (auto simp: print_summary_def print_failed_effect)

lemma ensure_effect:
  assumes "ensure_models_directory E s = (r, s')"
  shows "stdout s' = stdout s" and "download_errors (logs s') = download_errors (logs s)"
  using assms unfolding ensure_models_directory_def
  by (auto split: prod.splits sum.splits if_splits dest!: engine_call_downloaderD)

lemma download_all_models_raises:
  assumes "download_all_models E registry s = (Inl e, s')"
  shows "(\<exists>e'. fst (ensure_models_directory E s) = Inl e') \<or> e = KeyboardInterrupt"
proof (cases "fst (ensure_models_directory E s)")
  case (Inl a)
  then show ?thesis by simp
next
  case (Inr u)
  then obtain s1 where en: "ensure_models_directory E s = (Inr u, s1)"
    by (metis surjective_pairing)
  obtain r2 s2 where lp: "download_loop E (length registry) 1 registry []
                  (print (CudaAvailable (cuda_is_available E (world s1)))
                     (print StorageDirectory
                        (print (DownloadingModels (length registry)) (print Banner s1)))) = (r2, s2)"
    by fastforce
  from assms en lp have "r2 = Inl e"
    by (cases r2) (auto simp: download_all_models_def)
  with download_loop_effect[OF lp] show ?thesis by simp
qed

section \<open>Runs of the downloader on the example engines\<close>

lemmas downloader_eval_defs = main_def download_all_models_def download_model_def
  ensure_models_directory_def print_summary_def print_def downloader_start_def
  load_handles_def engine_call_def emit_def disk_engine_def impatient_engine_def
  from_pretrained_def hub_def SUPPORTED_MODELS_def MODELS_DIR_def path_join_def new_entry_def
  Let_def

lemma main_disk_engine:
  "fst (main disk_engine SUPPORTED_MODELS (downloader_start [])) = 0
   \<and> fst (download_all_models disk_engine SUPPORTED_MODELS (downloader_start [])) = Inr ()
   \<and> processing (stdout (snd (main disk_engine SUPPORTED_MODELS (downloader_start [])))) =
       [(1, 6, ''bert-base-uncased''), (2, 6, ''bert-large-uncased''), (3, 6, ''roberta-base''),
        (4, 6, ''roberta-large''), (5, 6, ''albert-base-v1''), (6, 6, ''albert-base-v2'')]
   \<and> download_errors (logs (snd (main disk_engine SUPPORTED_MODELS (downloader_start [])))) =
       [(''roberta-large'', ''not on the hub'')]"
  by (simp add: downloader_eval_defs)

lemma ensure_disk_engine:
  "fst (ensure_models_directory disk_engine (downloader_start [])) = Inr ()"
  by (simp add: downloader_eval_defs)

lemma main_impatient_engine:
  "fst (main impatient_engine SUPPORTED_MODELS (downloader_start [])) = 1
   \<and> fst (download_all_models impatient_engine SUPPORTED_MODELS (downloader_start []))
       = Inl KeyboardInterrupt"
  by (simp add: downloader_eval_defs)

section \<open>Cache keys are registry keys\<close>

text \<open>
  C10. Every key of the model cache is a key of the registry: in every state the process can
  reach from its start, the \<open>loaded_models\<close> of \<^verbatim>\<open>GET /models\<close> are among its
  \<open>supported_models\<close>; and each request, served in any state whose cache keys are registry
  keys, leaves a state whose cache keys are registry keys.
\<close>

theorem cache_keys_are_registry_keys:
  "set (loaded_models (list_models (run E rs (start w))))
     \<subseteq> set (supported_models (list_models (run E rs (start w))))
   \<and> (set (keys (model_cache s)) \<subseteq> set (keys SUPPORTED_MODELS) \<longrightarrow>
        set (keys (model_cache (snd (serve E rq s)))) \<subseteq> set (keys SUPPORTED_MODELS))"
proof
  have "cache_inv E (run E rs (start w))" by (rule run_inv) simp
  then show "set (loaded_models (list_models (run E rs (start w))))
     \<subseteq> set (supported_models (list_models (run E rs (start w))))"
    by (simp add: cache_invD(3) list_models_def)
next
  have "cache_step E s (snd (serve E rq s))" by (rule serve_step[OF surjective_pairing])
  then show "set (keys (model_cache s)) \<subseteq> set (keys SUPPORTED_MODELS) \<longrightarrow>
        set (keys (model_cache (snd (serve E rq s)))) \<subseteq> set (keys SUPPORTED_MODELS)"
    by (auto dest!: cache_step_keys)
qed


theorem cache_keys_are_registry_keys_witness:
  "set (loaded_models (list_models (run disk_engine
        [PostLoadModel ''bert-base-uncased'', PostLoadModel ''invalid-model''] (start []))))
     \<subseteq> set (supported_models (list_models (run disk_engine
        [PostLoadModel ''bert-base-uncased'', PostLoadModel ''invalid-model''] (start []))))
   \<and> set (keys (model_cache (start [] :: (string list, string, string, string) server)))
       \<subseteq> set (keys SUPPORTED_MODELS)
   \<and> keys (model_cache (snd (serve disk_engine (PostLoadModel ''roberta-base'') (start []))))
       = [''roberta-base'']
   \<and> set (keys (model_cache (snd (serve disk_engine (PostLoadModel ''roberta-base'') (start [])))))
       \<subseteq> set (keys SUPPORTED_MODELS)"
proof -
  have h: "set (keys (model_cache (start [] :: (string list, string, string, string) server)))
       \<subseteq> set (keys SUPPORTED_MODELS)"
    by (simp add: start_def keys_def)
  note t = cache_keys_are_registry_keys [of disk_engine
      "[PostLoadModel ''bert-base-uncased'', PostLoadModel ''invalid-model'']" "[]"
      "start []" "PostLoadModel ''roberta-base''"]
  from t have a: "set (loaded_models (list_models (run disk_engine
        [PostLoadModel ''bert-base-uncased'', PostLoadModel ''invalid-model''] (start []))))
     \<subseteq> set (supported_models (list_models (run disk_engine
        [PostLoadModel ''bert-base-uncased'', PostLoadModel ''invalid-model''] (start []))))"
    by (rule conjunct1)
  from t h have b: "set (keys (model_cache (snd (serve disk_engine
        (PostLoadModel ''roberta-base'') (start [])))))
       \<subseteq> set (keys SUPPORTED_MODELS)"
    by blast
  from a h load_roberta_base_keys b show ?thesis by blast
qed

section \<open>Memoization\<close>

text \<open>
  C3. When a call of \<open>download_and_cache_model\<close> succeeds, the entry it returns is in the cache
  under that name; and after any further requests, a call with the same name returns that very
  entry and leaves the whole state as it is: cache, log, world and the list of engine calls, so
  no local or remote load is performed.
\<close>

theorem get_or_load_memoizes:
  "download_and_cache_model E name s = (Inr entry, s1) \<Longrightarrow>
     map_of (model_cache s1) name = Some entry \<and>
     download_and_cache_model E name (run E rs s1) = (Inr entry, run E rs s1) \<and>
     calls (snd (download_and_cache_model E name (run E rs s1))) = calls (run E rs s1)"
proof -
  assume a: "download_and_cache_model E name s = (Inr entry, s1)"
  then have c: "map_of (model_cache s1) name = Some entry" by (rule dacm_InrD)
  then have "map_of (model_cache (run E rs s1)) name = Some entry" by (rule run_keeps)
  then have "download_and_cache_model E name (run E rs s1) = (Inr entry, run E rs s1)"
    by (rule dacm_hit)
  with c show ?thesis by simp
qed

theorem get_or_load_memoizes_witness:
  "download_and_cache_model disk_engine ''roberta-base'' (start []) =
     (Inr roberta_base_entry, after_roberta_base) \<and>
   map_of (model_cache after_roberta_base) ''roberta-base'' = Some roberta_base_entry \<and>
   download_and_cache_model disk_engine ''roberta-base''
     (run disk_engine [PostPredict (hi_request ''bert-base-uncased'' ''tokens''), GetHealth]
        after_roberta_base) =
     (Inr roberta_base_entry,
      run disk_engine [PostPredict (hi_request ''bert-base-uncased'' ''tokens''), GetHealth]
        after_roberta_base)"
  using dacm_roberta_base get_or_load_memoizes [OF dacm_roberta_base,
      of "[PostPredict (hi_request ''bert-base-uncased'' ''tokens''), GetHealth]"]
  by blast

section \<open>Load atomicity\<close>

text \<open>
  C4. A call of \<open>download_and_cache_model\<close> that raises leaves the cache as it was. When the
  load of an uncached registry name (local attempt, then remote) fails with an exception at
  whichever step, the call raises that exception and the name is not in the cache afterwards.
  In every state reachable from the start, every cache entry is the dict of exactly the three
  handles: tokenizer, model and pipeline.
\<close>

theorem load_is_atomic:
  "(download_and_cache_model E name s = (Inl e, s') \<longrightarrow> model_cache s' = model_cache s)
   \<and> (map_of (model_cache s) name = None \<and> map_of SUPPORTED_MODELS name = Some model_id \<and>
       load_local_then_remote E name model_id (path_join MODELS_DIR name)
         (emit (LoadingModel name) s) = (Inl e1, s1) \<longrightarrow>
         fst (download_and_cache_model E name s) = Inl e1 \<and>
         map_of (model_cache (snd (download_and_cache_model E name s))) name = None)
   \<and> (\<forall>(n, entry) \<in> set (model_cache (run E rs (start w))).
         \<exists>t m p. entry = [(''tokenizer'', TokenizerH t), (''model'', ModelH m),
                          (''pipeline'', PipelineH p)])"
proof (intro conjI impI)
  assume "download_and_cache_model E name s = (Inl e, s')"
  then show "model_cache s' = model_cache s" by (rule dacm_InlD)
next
  assume a: "map_of (model_cache s) name = None \<and> map_of SUPPORTED_MODELS name = Some model_id \<and>
       load_local_then_remote E name model_id (path_join MODELS_DIR name)
         (emit (LoadingModel name) s) = (Inl e1, s1)"
  then have f: "fst (download_and_cache_model E name s) = Inl e1"
    by (simp add: download_and_cache_model_def)
  then show "fst (download_and_cache_model E name s) = Inl e1" .
  from f have "download_and_cache_model E name s
      = (Inl e1, snd (download_and_cache_model E name s))"
    by (metis surjective_pairing)
  then have "model_cache (snd (download_and_cache_model E name s)) = model_cache s"
    by (rule dacm_InlD)
  with a show "map_of (model_cache (snd (download_and_cache_model E name s))) name = None"
    by simp
next
  have inv: "cache_inv E (run E rs (start w))" by (rule run_inv) simp
  show "\<forall>(n, entry) \<in> set (model_cache (run E rs (start w))).
         \<exists>t m p. entry = [(''tokenizer'', TokenizerH t), (''model'', ModelH m),
                          (''pipeline'', PipelineH p)]"
  proof (clarify)
    fix n entry assume "(n, entry) \<in> set (model_cache (run E rs (start w)))"
    with inv have "built E entry" by (rule cache_invD(4))
    then show "\<exists>t m p. entry = [(''tokenizer'', TokenizerH t), (''model'', ModelH m),
                          (''pipeline'', PipelineH p)]"
      by (auto simp: built_def new_entry_def)
  qed
qed

theorem load_is_atomic_witness:
  "fst (download_and_cache_model disk_engine ''roberta-large'' (start [])) =
     Inl (EngineError ''not on the hub'')
   \<and> model_cache (snd (download_and_cache_model disk_engine ''roberta-large'' (start []))) =
       model_cache (start [] :: (string list, string, string, string) server)
   \<and> map_of (model_cache (start [] :: (string list, string, string, string) server))
        ''roberta-large'' = None
   \<and> map_of SUPPORTED_MODELS ''roberta-large'' = Some ''roberta-large''
   \<and> map_of (model_cache (snd (download_and_cache_model disk_engine ''roberta-large'' (start []))))
        ''roberta-large'' = None
   \<and> (''roberta-base'', roberta_base_entry) \<in> set (model_cache
        (run disk_engine [PostLoadModel ''roberta-base'', PostLoadModel ''roberta-large''] (start [])))
   \<and> (\<exists>t m p. roberta_base_entry =
        [(''tokenizer'', TokenizerH t), (''model'', ModelH m), (''pipeline'', PipelineH p)])"
proof -
  let ?s = "start [] :: (string list, string, string, string) server"
  let ?d = "download_and_cache_model disk_engine ''roberta-large'' ?s"
  let ?l = "load_local_then_remote disk_engine ''roberta-large'' ''roberta-large''
          (path_join MODELS_DIR ''roberta-large'') (emit (LoadingModel ''roberta-large'') ?s)"
  let ?rs = "[PostLoadModel ''roberta-base'', PostLoadModel ''roberta-large'']"
  note t = load_is_atomic [of disk_engine "''roberta-large''" ?s "EngineError ''not on the hub''"
      "snd ?d" "''roberta-large''" "EngineError ''not on the hub''" "snd ?l" ?rs "[]"]
  have d: "?d = (Inl (EngineError ''not on the hub''), snd ?d)"
    using dacm_roberta_large by (metis surjective_pairing)
  have l: "?l = (Inl (EngineError ''not on the hub''), snd ?l)"
    using llr_roberta_large by (metis surjective_pairing)
  have h1: "map_of (model_cache ?s) ''roberta-large'' = None" by (simp add: start_def)
  have h2: "map_of SUPPORTED_MODELS ''roberta-large'' = Some ''roberta-large''"
    by (simp add: SUPPORTED_MODELS_def)
  have m: "(''roberta-base'', roberta_base_entry) \<in> set (model_cache (run disk_engine ?rs ?s))"
    unfolding run_two_loads by simp
  from t d have a: "model_cache (snd ?d) = model_cache ?s" by blast
  from t h1 h2 l have b: "map_of (model_cache (snd ?d)) ''roberta-large'' = None" by blast
  from t m have c: "\<exists>t m p. roberta_base_entry =
        [(''tokenizer'', TokenizerH t), (''model'', ModelH m), (''pipeline'', PipelineH p)]"
    by blast
  show ?thesis by (intro conjI) (rule dacm_roberta_large a h1 h2 b m c)+
qed

section \<open>The health endpoint\<close>

text \<open>
  C8. \<^verbatim>\<open>GET /health\<close> reports the status \<^verbatim>\<open>healthy\<close> in every state. In every state reachable
  from the start, its \<open>models_loaded\<close> is the number of distinct names that the log records as
  loaded. A predict request for a name that is already in the cache leaves the count as it was,
  and no request removes or replaces an entry of the cache.
\<close>

theorem health_counts_loaded_names:
  "status (health_check E s) = ''healthy''
   \<and> models_loaded (health_check E (run E rs (start w)))
       = card (set (loaded_names (logs (run E rs (start w)))))
   \<and> (map_of (model_cache s) (req_model_name rq) \<noteq> None \<longrightarrow>
        models_loaded (health_check E (snd (predict E rq s))) = models_loaded (health_check E s))
   \<and> (map_of (model_cache s) n = Some e \<longrightarrow>
        map_of (model_cache (snd (serve E r s))) n = Some e)"
proof (intro conjI impI)
  show "status (health_check E s) = ''healthy''" by (simp add: health_check_def)
next
  have inv: "cache_inv E (run E rs (start w))" by (rule run_inv) simp
  have "length (model_cache (run E rs (start w))) = length (keys (model_cache (run E rs (start w))))"
    by (simp add: keys_def)
  also have "\<dots> = card (set (keys (model_cache (run E rs (start w)))))"
    using cache_invD(2)[OF inv] by (simp add: distinct_card)
  also have "\<dots> = card (set (loaded_names (logs (run E rs (start w)))))"
    using cache_invD(1)[OF inv] by simp
  finally show "models_loaded (health_check E (run E rs (start w)))
       = card (set (loaded_names (logs (run E rs (start w)))))"
    by (simp add: health_check_def)
next
  assume "map_of (model_cache s) (req_model_name rq) \<noteq> None"
  then show "models_loaded (health_check E (snd (predict E rq s))) = models_loaded (health_check E s)"
    by (simp add: health_check_def predict_cached_same)
next
  assume "map_of (model_cache s) n = Some e"
  then show "map_of (model_cache (snd (serve E r s))) n = Some e"
    by (rule cache_step_keeps) (rule serve_step[OF surjective_pairing])
qed

theorem health_counts_loaded_names_witness:
  "status (health_check disk_engine after_roberta_base) = ''healthy''
   \<and> models_loaded (health_check disk_engine
        (run disk_engine [PostLoadModel ''roberta-base'', PostLoadModel ''roberta-large''] (start [])))
       = card (set (loaded_names (logs
        (run disk_engine [PostLoadModel ''roberta-base'', PostLoadModel ''roberta-large''] (start [])))))
   \<and> models_loaded (health_check disk_engine
        (run disk_engine [PostLoadModel ''roberta-base'', PostLoadModel ''roberta-large''] (start []))) = 1
   \<and> map_of (model_cache after_roberta_base) (req_model_name (hi_request ''roberta-base'' ''tokens''))
        \<noteq> None
   \<and> models_loaded (health_check disk_engine
        (snd (predict disk_engine (hi_request ''roberta-base'' ''tokens'') after_roberta_base)))
       = models_loaded (health_check disk_engine after_roberta_base)
   \<and> map_of (model_cache after_roberta_base) ''roberta-base'' = Some roberta_base_entry
   \<and> map_of (model_cache (snd (serve disk_engine (PostLoadModel ''bert-base-uncased'')
        after_roberta_base))) ''roberta-base'' = Some roberta_base_entry"
proof -
  note t = health_counts_loaded_names [of disk_engine after_roberta_base
      "[PostLoadModel ''roberta-base'', PostLoadModel ''roberta-large'']" "[]"
      "hi_request ''roberta-base'' ''tokens''" "''roberta-base''" roberta_base_entry
      "PostLoadModel ''bert-base-uncased''"]
  have h: "map_of (model_cache after_roberta_base)
      (req_model_name (hi_request ''roberta-base'' ''tokens'')) \<noteq> None"
    by (simp add: after_roberta_base_def hi_request_def)
  from t have a: "status (health_check disk_engine after_roberta_base) = ''healthy''"
    and b: "models_loaded (health_check disk_engine
        (run disk_engine [PostLoadModel ''roberta-base'', PostLoadModel ''roberta-large''] (start [])))
       = card (set (loaded_names (logs
        (run disk_engine [PostLoadModel ''roberta-base'', PostLoadModel ''roberta-large''] (start [])))))"
    by blast+
  from t h have c: "models_loaded (health_check disk_engine
        (snd (predict disk_engine (hi_request ''roberta-base'' ''tokens'') after_roberta_base)))
       = models_loaded (health_check disk_engine after_roberta_base)"
    by blast
  from t after_roberta_base_cached
  have d: "map_of (model_cache (snd (serve disk_engine (PostLoadModel ''bert-base-uncased'')
        after_roberta_base))) ''roberta-base'' = Some roberta_base_entry"
    by blast
  show ?thesis
    by (intro conjI) (rule a b c d h after_roberta_base_cached run_two_loads_count)+
qed

section \<open>Errors in the body of a 200\<close>

text \<open>
  C5. On \<^verbatim>\<open>POST /predict\<close>, when the body of the handler raises an \<^verbatim>\<open>Exception\<close> that is not an
  \<open>HTTPException\<close>, the endpoint answers 200 with the text of the exception in \<open>error\<close> and
  with neither \<open>embeddings\<close> nor \<open>features\<close>. The only \<open>HTTPException\<close> the body raises is
  the 400 for a name outside the registry, so every failure of the load or of the inference for
  a registry name is reported this way; in particular a failed load is. Every response the
  endpoint returns has exactly one of \<open>embeddings\<close>, \<open>features\<close>, \<open>error\<close> set, and
  \<open>error\<close> is never set beside one of the other two.
\<close>

theorem predict_reports_errors_in_body:
  "(predict_try E rq s = (Inl e, s1) \<and> is_Exception e \<and> \<not> is_HTTPException e \<longrightarrow>
      predict E rq s =
        (Inr \<lparr>resp_model_name = req_model_name rq, resp_text = req_text rq,
              resp_task = req_task rq, embeddings = None, features = None,
              error = Some (str_exn e)\<rparr>,
         emit (ErrorProcessingRequest (str_exn e)) s1) \<and>
      http_status (fst (predict E rq s)) = Some 200)
   \<and> (predict_try E rq s = (Inl (HTTPException c d), s1) \<longrightarrow>
        c = 400 \<and> req_model_name rq \<notin> set (keys SUPPORTED_MODELS))
   \<and> (req_model_name rq \<in> set (keys SUPPORTED_MODELS) \<and>
       download_and_cache_model E (req_model_name rq) s = (Inl e, s1) \<and> is_Exception e \<longrightarrow>
        fst (predict E rq s) =
          Inr \<lparr>resp_model_name = req_model_name rq, resp_text = req_text rq,
               resp_task = req_task rq, embeddings = None, features = None,
               error = Some (str_exn e)\<rparr>)
   \<and> (predict E rq s = (Inr resp, s') \<longrightarrow>
        populated resp = 1 \<and>
        (error resp \<noteq> None \<longrightarrow> embeddings resp = None \<and> features resp = None))"
proof (intro conjI impI)
  assume a: "predict_try E rq s = (Inl e, s1) \<and> is_Exception e \<and> \<not> is_HTTPException e"
  then show "predict E rq s =
        (Inr \<lparr>resp_model_name = req_model_name rq, resp_text = req_text rq,
              resp_task = req_task rq, embeddings = None, features = None,
              error = Some (str_exn e)\<rparr>,
         emit (ErrorProcessingRequest (str_exn e)) s1)"
    by (simp add: predict_def)
  then show "http_status (fst (predict E rq s)) = Some 200" by simp
next
  assume "predict_try E rq s = (Inl (HTTPException c d), s1)"
  then have "c = 400 \<and> req_model_name rq \<notin> set (keys SUPPORTED_MODELS) \<and> s1 = s"
    by (rule predict_try_http)
  then show "c = 400" "req_model_name rq \<notin> set (keys SUPPORTED_MODELS)" by simp_all
next
  assume a: "req_model_name rq \<in> set (keys SUPPORTED_MODELS) \<and>
       download_and_cache_model E (req_model_name rq) s = (Inl e, s1) \<and> is_Exception e"
  then have "\<not> is_HTTPException e" by (auto dest: dacm_not_http)
  moreover from a have "predict_try E rq s = (Inl e, s1)" by (simp add: predict_try_def)
  ultimately show "fst (predict E rq s) =
          Inr \<lparr>resp_model_name = req_model_name rq, resp_text = req_text rq,
               resp_task = req_task rq, embeddings = None, features = None,
               error = Some (str_exn e)\<rparr>"
    using a by (simp add: predict_def)
next
  assume p: "predict E rq s = (Inr resp, s')"
  obtain r0 s0 where t: "predict_try E rq s = (r0, s0)" by fastforce
  show "populated resp = 1"
  proof (cases r0)
    case (Inr x)
    with p t have "resp = x" by (simp add: predict_def)
    with Inr t show ?thesis by (auto dest: predict_try_populated)
  next
    case (Inl x)
    with p t show ?thesis by (auto simp: predict_def populated_def split: if_splits)
  qed
  then show "embeddings resp = None" "features resp = None" if "error resp \<noteq> None"
    using that by (auto simp: populated_def split: if_splits)
qed

theorem predict_reports_errors_in_body_witness:
  "fst (predict_try disk_engine (hi_request ''roberta-large'' ''tokens'') (start [])) =
     Inl (EngineError ''not on the hub'')
   \<and> is_Exception (EngineError ''not on the hub'')
   \<and> \<not> is_HTTPException (EngineError ''not on the hub'')
   \<and> fst (predict disk_engine (hi_request ''roberta-large'' ''tokens'') (start [])) =
       Inr \<lparr>resp_model_name = ''roberta-large'', resp_text = [72, 105], resp_task = ''tokens'',
            embeddings = None, features = None, error = Some ''not on the hub''\<rparr>
   \<and> http_status (fst (predict disk_engine (hi_request ''roberta-large'' ''tokens'') (start [])))
       = Some 200
   \<and> fst (predict_try disk_engine (hi_request ''invalid-model'' ''tokens'') (start [])) =
       Inl (HTTPException 400 (''Model invalid-model not supported. Available models: ''
         @ repr_list (keys SUPPORTED_MODELS)))
   \<and> ''invalid-model'' \<notin> set (keys SUPPORTED_MODELS)
   \<and> populated (\<lparr>resp_model_name = ''roberta-large'', resp_text = [72, 105], resp_task = ''tokens'',
            embeddings = None, features = None, error = Some ''not on the hub''\<rparr>
          :: int model_response) = 1"
proof -
  let ?s = "start [] :: (string list, string, string, string) server"
  let ?rq = "hi_request ''roberta-large'' ''tokens''"
  let ?e = "EngineError ''not on the hub''"
  let ?resp = "\<lparr>resp_model_name = ''roberta-large'', resp_text = [72, 105], resp_task = ''tokens'',
            embeddings = None, features = None, error = Some ''not on the hub''\<rparr> :: int model_response"
  let ?t = "predict_try disk_engine ?rq ?s :: (exn + int model_response) \<times> _"
  let ?p = "predict disk_engine ?rq ?s :: (exn + int model_response) \<times> _"
  have e1: "is_Exception ?e" and e2: "\<not> is_HTTPException ?e" by simp_all
  have t: "?t = (Inl ?e, snd ?t)"
    using predict_try_roberta_large by (metis surjective_pairing)
  note th = predict_reports_errors_in_body [of disk_engine ?rq ?s ?e "snd ?t" _ _ ?resp "snd ?p"]
  from th t e1 e2 have p: "?p = (Inr \<lparr>resp_model_name = req_model_name ?rq, resp_text = req_text ?rq,
              resp_task = req_task ?rq, embeddings = None, features = None,
              error = Some (str_exn ?e)\<rparr>, emit (ErrorProcessingRequest (str_exn ?e)) (snd ?t))"
    and st: "http_status (fst ?p) = Some 200"
    by blast+
  from p have p1: "fst ?p = Inr ?resp" by (simp add: hi_request_def)
  then have p2: "?p = (Inr ?resp, snd ?p)" by (metis surjective_pairing)
  from th p2 have pop: "populated ?resp = 1" by blast
  note th2 = predict_reports_errors_in_body [of disk_engine "hi_request ''invalid-model'' ''tokens''"
      ?s _ "start []" 400 "''Model invalid-model not supported. Available models: ''
        @ repr_list (keys SUPPORTED_MODELS)"]
  from th2 predict_try_invalid
  have inv: "req_model_name (hi_request ''invalid-model'' ''tokens'') \<notin> set (keys SUPPORTED_MODELS)"
    by blast
  then have i2: "''invalid-model'' \<notin> set (keys SUPPORTED_MODELS)" by (simp add: hi_request_def)
  have i1: "fst (predict_try disk_engine (hi_request ''invalid-model'' ''tokens'') ?s) =
       Inl (HTTPException 400 (''Model invalid-model not supported. Available models: ''
         @ repr_list (keys SUPPORTED_MODELS)))"
    by (simp add: predict_try_invalid)
  show ?thesis
    by (intro conjI) (rule predict_try_roberta_large e1 e2 p1 st i1 i2 pop)+
qed

section \<open>Feature extraction\<close>




section \<open>Other tasks\<close>

text \<open>
  C7 as stated promises \<open>features\<close> for every request with a registry name and a task other
  than \<^verbatim>\<open>feature-extraction\<close>. When the model cannot be loaded (here: no local files, and the
  hub does not have it), the response carries \<open>error\<close> and no \<open>features\<close>.
\<close>

theorem other_task_without_features:
  "req_model_name (hi_request ''roberta-large'' ''tokens'') \<in> set (keys SUPPORTED_MODELS)
   \<and> req_task (hi_request ''roberta-large'' ''tokens'') \<noteq> ''feature-extraction''
   \<and> fst (predict disk_engine (hi_request ''roberta-large'' ''tokens'') (start [])) =
       Inr \<lparr>resp_model_name = ''roberta-large'', resp_text = [72, 105], resp_task = ''tokens'',
            embeddings = None, features = None, error = Some ''not on the hub''\<rparr>
   \<and> features (\<lparr>resp_model_name = ''roberta-large'', resp_text = [72, 105], resp_task = ''tokens'',
            embeddings = None, features = None, error = Some ''not on the hub''\<rparr>
         :: int model_response) = None"
  by (simp add: eval_defs hi_request_def)

text \<open>
  C7, as amended. Take a predict request with a registry name and a task other than
  \<^verbatim>\<open>feature-extraction\<close>, in a state reachable from the start, for which the load succeeds and
  the tokenizer of the loaded entry returns the tokens \<open>toks\<close>. The response has \<open>features\<close>
  set, with \<open>num_tokens\<close> the number of tokens, \<open>tokens\<close> the first 50 of them (all of them
  when there are no more than 50) and \<open>text_length\<close> the length of the request text; \<open>error\<close>
  and \<open>embeddings\<close> are unset.
\<close>

theorem other_tasks_return_features:
  assumes valid: "req_model_name rq \<in> set (keys SUPPORTED_MODELS)"
    and task: "req_task rq \<noteq> ''feature-extraction''"
    and load: "download_and_cache_model E (req_model_name rq) (run E rs (start w)) = (Inr entry, s1)"
    and tok: "map_of entry ''tokenizer'' = Some (TokenizerH t)"
    and call: "tokenize E t (req_text rq) (world s1) = (Inr toks, w2)"
  shows "fst (predict E rq (run E rs (start w))) =
       Inr \<lparr>resp_model_name = req_model_name rq, resp_text = req_text rq,
            resp_task = req_task rq, embeddings = None,
            features = Some [(''num_tokens'', IntVal (length toks)),
                             (''tokens'', TokensVal (take 50 toks)),
                             (''text_length'', IntVal (length (req_text rq)))],
            error = None\<rparr>
     \<and> length (take 50 toks) \<le> 50
     \<and> (length toks \<le> 50 \<longrightarrow> take 50 toks = toks)"
proof -
  have "cache_inv E (run E rs (start w))" by (rule run_inv) simp
  then have "built E entry" using load by (rule dacm_built)
  then obtain t0 m0 p0 where "entry = new_entry t0 m0 p0" by (auto simp: built_def)
  then have "map_of entry ''pipeline'' = Some (PipelineH p0)" by simp
  with valid task load have "fst (predict E rq (run E rs (start w))) =
       Inr \<lparr>resp_model_name = req_model_name rq, resp_text = req_text rq,
            resp_task = req_task rq, embeddings = None,
            features = Some [(''num_tokens'', IntVal (length toks)),
                             (''tokens'', TokensVal (take 50 toks)),
                             (''text_length'', IntVal (length (req_text rq)))],
            error = None\<rparr>"
    using tok call by (rule predict_features)
  then show ?thesis by simp
qed

theorem other_tasks_return_features_witness:
  "req_model_name (long_request ''roberta-base'' ''tokens'') \<in> set (keys SUPPORTED_MODELS)
   \<and> req_task (long_request ''roberta-base'' ''tokens'') \<noteq> ''feature-extraction''
   \<and> download_and_cache_model disk_engine (req_model_name (long_request ''roberta-base'' ''tokens''))
        (run disk_engine [] (start [])) = (Inr roberta_base_entry, after_roberta_base)
   \<and> map_of roberta_base_entry ''tokenizer'' = Some (TokenizerH ''roberta-base'')
   \<and> tokenize disk_engine ''roberta-base'' (req_text (long_request ''roberta-base'' ''tokens''))
        (world after_roberta_base)
       = (Inr (''[CLS]'' # replicate 60 ''a''), world after_roberta_base)
   \<and> fst (predict disk_engine (long_request ''roberta-base'' ''tokens'')
        (run disk_engine [] (start []))) =
       Inr \<lparr>resp_model_name = ''roberta-base'', resp_text = replicate 60 97,
            resp_task = ''tokens'', embeddings = None,
            features = Some [(''num_tokens'', IntVal 61),
                             (''tokens'', TokensVal (''[CLS]'' # replicate 49 ''a'')),
                             (''text_length'', IntVal 60)],
            error = None\<rparr>
   \<and> length (''[CLS]'' # replicate 49 ''a'') = 50"
proof -
  let ?rq = "long_request ''roberta-base'' ''tokens''"
  have h1: "req_model_name ?rq \<in> set (keys SUPPORTED_MODELS)"
    by (simp add: long_request_def roberta_base_in_registry)
  have h2: "req_task ?rq \<noteq> ''feature-extraction''" by (simp add: long_request_def)
  have h3: "download_and_cache_model disk_engine (req_model_name ?rq)
        (run disk_engine [] (start [])) = (Inr roberta_base_entry, after_roberta_base)"
    by (simp add: long_request_def dacm_roberta_base)
  have h5: "tokenize disk_engine ''roberta-base'' (req_text ?rq) (world after_roberta_base)
       = (Inr (''[CLS]'' # replicate 60 ''a''), world after_roberta_base)"
    by (simp add: disk_engine_def long_request_def char_of_examples)
  note t = other_tasks_return_features [OF h1 h2 h3 roberta_base_entry_lookups(2) h5]
  have tk: "take 50 (''[CLS]'' # replicate 60 ''a'') = ''[CLS]'' # replicate 49 ''a''"
    by (simp add: take_Cons')
  from t have c1: "fst (predict disk_engine ?rq (run disk_engine [] (start []))) =
       Inr \<lparr>resp_model_name = ''roberta-base'', resp_text = replicate 60 97,
            resp_task = ''tokens'', embeddings = None,
            features = Some [(''num_tokens'', IntVal 61),
                             (''tokens'', TokensVal (''[CLS]'' # replicate 49 ''a'')),
                             (''text_length'', IntVal 60)],
            error = None\<rparr>"
    by (simp add: long_request_def tk)
  have c2: "length (''[CLS]'' # replicate 49 ''a'') = 50" by simp
  show ?thesis
    by (intro conjI) (rule h1 h2 h3 roberta_base_entry_lookups h5 c1 c2)+
qed

section \<open>Local first, then remote\<close>




section \<open>The bulk downloader isolates failures\<close>

text \<open>
  C9. For every registry list, in whatever order: when \<open>main\<close> exits with a code other than 0,
  the code is 1 and either \<open>ensure_models_directory\<close> raised (a failure at top level, before
  any download) or the run was interrupted by the user. When the run starts at process start, the
  directory step succeeds and no interrupt comes, the exit code is 0 however many downloads
  failed; every model of the registry was announced, in registry order, numbered from 1; and
  the failures listed in the summary are exactly the failures that \<open>download_model\<close> logged,
  each as the pair of model name and error text.
\<close>

theorem downloader_isolates_failures:
  "(fst (main E registry s) \<noteq> 0 \<longrightarrow>
      fst (main E registry s) = 1 \<and>
      ((\<exists>e. fst (ensure_models_directory E s) = Inl e) \<or>
       fst (download_all_models E registry s) = Inl KeyboardInterrupt))
   \<and> (fst (ensure_models_directory E (downloader_start w)) = Inr () \<and>
       fst (download_all_models E registry (downloader_start w)) \<noteq> Inl KeyboardInterrupt \<longrightarrow>
        fst (main E registry (downloader_start w)) = 0 \<and>
        processing (stdout (snd (main E registry (downloader_start w)))) =
          map (\<lambda>(k, n). (k, length registry, n)) (enumerate 1 (map fst registry)) \<and>
        failed_items (stdout (snd (main E registry (downloader_start w)))) =
          download_errors (logs (snd (main E registry (downloader_start w)))))"
proof (intro conjI impI)
  assume nz: "fst (main E registry s) \<noteq> 0"
  obtain r s' where d: "download_all_models E registry s = (r, s')" by fastforce
  from nz d obtain e where r: "r = Inl e"
    by (cases r) (auto simp: main_def)
  from d r show "fst (main E registry s) = 1" by (simp add: main_def)
  from download_all_models_raises[OF d[unfolded r]] d r
  show "(\<exists>e. fst (ensure_models_directory E s) = Inl e) \<or>
       fst (download_all_models E registry s) = Inl KeyboardInterrupt"
    by auto
next
  let ?s = "downloader_start w"
  assume a: "fst (ensure_models_directory E ?s) = Inr () \<and>
       fst (download_all_models E registry ?s) \<noteq> Inl KeyboardInterrupt"
  then obtain s1 where en: "ensure_models_directory E ?s = (Inr (), s1)"
    by (metis surjective_pairing)
  note ee = ensure_effect[OF en]
  let ?s1' = "print (CudaAvailable (cuda_is_available E (world s1)))
                     (print StorageDirectory
                        (print (DownloadingModels (length registry)) (print Banner s1)))"
  obtain r2 s2 where lp: "download_loop E (length registry) 1 registry [] ?s1' = (r2, s2)"
    by fastforce
  note le = download_loop_effect[OF lp]
  show "fst (main E registry ?s) = 0"
    and "processing (stdout (snd (main E registry ?s))) =
          map (\<lambda>(k, n). (k, length registry, n)) (enumerate 1 (map fst registry))"
    and "failed_items (stdout (snd (main E registry ?s))) =
          download_errors (logs (snd (main E registry ?s)))"
  proof (atomize (full), cases r2)
    case (Inl e)
    with le have "e = KeyboardInterrupt" by simp
    with Inl en lp have "fst (download_all_models E registry ?s) = Inl KeyboardInterrupt"
      by (simp add: download_all_models_def)
    with a show "fst (main E registry ?s) = 0 \<and>
      processing (stdout (snd (main E registry ?s))) =
          map (\<lambda>(k, n). (k, length registry, n)) (enumerate 1 (map fst registry)) \<and>
      failed_items (stdout (snd (main E registry ?s))) =
          download_errors (logs (snd (main E registry ?s)))"
      by simp
  next
    case (Inr failed)
    with en lp have m: "main E registry ?s = (0, print_summary (length registry) failed s2)"
      by (simp add: main_def download_all_models_def)
    from le Inr have f: "download_errors (logs s2) = download_errors (logs ?s1') @ failed"
      and p: "processing (stdout s2) = processing (stdout ?s1') @
            map (\<lambda>(k, n). (k, length registry, n)) (enumerate 1 (map fst registry))"
      and fi: "failed_items (stdout s2) = failed_items (stdout ?s1')"
      by auto
    from ee have z: "stdout s1 = []" "download_errors (logs s1) = []"
      by (simp_all add: downloader_start_def)
    from m f p fi z show "fst (main E registry ?s) = 0 \<and>
      processing (stdout (snd (main E registry ?s))) =
          map (\<lambda>(k, n). (k, length registry, n)) (enumerate 1 (map fst registry)) \<and>
      failed_items (stdout (snd (main E registry ?s))) =
          download_errors (logs (snd (main E registry ?s)))"
      by (simp add: print_summary_effect)
  qed
qed

theorem downloader_isolates_failures_witness:
  "fst (main impatient_engine SUPPORTED_MODELS (downloader_start [])) \<noteq> 0
   \<and> fst (main impatient_engine SUPPORTED_MODELS (downloader_start [])) = 1
   \<and> fst (download_all_models impatient_engine SUPPORTED_MODELS (downloader_start []))
       = Inl KeyboardInterrupt
   \<and> fst (ensure_models_directory disk_engine (downloader_start [])) = Inr ()
   \<and> fst (download_all_models disk_engine SUPPORTED_MODELS (downloader_start []))
       \<noteq> Inl KeyboardInterrupt
   \<and> fst (main disk_engine SUPPORTED_MODELS (downloader_start [])) = 0
   \<and> processing (stdout (snd (main disk_engine SUPPORTED_MODELS (downloader_start [])))) =
       [(1, 6, ''bert-base-uncased''), (2, 6, ''bert-large-uncased''), (3, 6, ''roberta-base''),
        (4, 6, ''roberta-large''), (5, 6, ''albert-base-v1''), (6, 6, ''albert-base-v2'')]
   \<and> failed_items (stdout (snd (main disk_engine SUPPORTED_MODELS (downloader_start [])))) =
       [(''roberta-large'', ''not on the hub'')]
   \<and> download_errors (logs (snd (main disk_engine SUPPORTED_MODELS (downloader_start [])))) =
       [(''roberta-large'', ''not on the hub'')]"
proof -
  let ?s = "downloader_start [] :: string list downloader"
  note t1 = downloader_isolates_failures [of impatient_engine SUPPORTED_MODELS ?s]
  note t2 = downloader_isolates_failures [of disk_engine SUPPORTED_MODELS _ "[]"]
  from main_impatient_engine
  have a1: "fst (main impatient_engine SUPPORTED_MODELS ?s) \<noteq> 0" by simp
  from t1 a1 have a2: "fst (main impatient_engine SUPPORTED_MODELS ?s) = 1" by blast
  from main_impatient_engine
  have a3: "fst (download_all_models impatient_engine SUPPORTED_MODELS ?s) = Inl KeyboardInterrupt"
    by blast
  from main_disk_engine
  have b2: "fst (download_all_models disk_engine SUPPORTED_MODELS ?s) \<noteq> Inl KeyboardInterrupt"
    by simp
  from t2 ensure_disk_engine b2
  have c: "fst (main disk_engine SUPPORTED_MODELS ?s) = 0 \<and>
        processing (stdout (snd (main disk_engine SUPPORTED_MODELS ?s))) =
          map (\<lambda>(k, n). (k, length SUPPORTED_MODELS, n)) (enumerate 1 (map fst SUPPORTED_MODELS)) \<and>
        failed_items (stdout (snd (main disk_engine SUPPORTED_MODELS ?s))) =
          download_errors (logs (snd (main disk_engine SUPPORTED_MODELS ?s)))"
    by blast
  from main_disk_engine
  have b4: "processing (stdout (snd (main disk_engine SUPPORTED_MODELS ?s))) =
       [(1, 6, ''bert-base-uncased''), (2, 6, ''bert-large-uncased''), (3, 6, ''roberta-base''),
        (4, 6, ''roberta-large''), (5, 6, ''albert-base-v1''), (6, 6, ''albert-base-v2'')]"
    and b5: "download_errors (logs (snd (main disk_engine SUPPORTED_MODELS ?s))) =
       [(''roberta-large'', ''not on the hub'')]"
    by blast+
  from c have c1: "fst (main disk_engine SUPPORTED_MODELS ?s) = 0" by blast
  from c b5 have c3: "failed_items (stdout (snd (main disk_engine SUPPORTED_MODELS ?s))) =
       [(''roberta-large'', ''not on the hub'')]"
    by simp
  show ?thesis
    by (intro conjI) (rule a1 a2 a3 ensure_disk_engine b2 c1 b4 c3 b5)+
qed

end
